theory Spec2Isabelle
  imports Main "HOL-Library.Word"
begin

unbundle bit_operations_syntax

section \<open>GNUPG build-packet.c: assembling packets and writing them\<close>

text \<open>
  A shallow embedding of \<^verbatim>\<open>g10/build-packet.c\<close>.  C integers keep their width:
  \<^verbatim>\<open>byte\<close> is \<open>8 word\<close>, \<^verbatim>\<open>u16\<close> is \<open>16 word\<close>, \<^verbatim>\<open>u32\<close> is \<open>32 word\<close>, and an
  \<^verbatim>\<open>int\<close> that is only combined bitwise or compared for equality (the ctb, hdrlen)
  is a \<open>32 word\<close> as well.  Functions that write take the sink and return it updated,
  together with the C return value.  \<^verbatim>\<open>log_bug\<close> and \<^verbatim>\<open>assert\<close> end the process; they
  and reads outside an array are values of the type \<open>fatal\<close>.
\<close>

type_synonym byte = "8 word"
type_synonym u16 = "16 word"
type_synonym u32 = "32 word"

datatype fatal =
    Bug_hdrlen              \<comment> \<open>log_bug("can't cope with hdrlen yet")\<close>
  | Bug_partial_header      \<comment> \<open>log_bug("can't write partial headers yet")\<close>
  | Bug_update_nyi          \<comment> \<open>log_bug("build_sig_packet: update nyi")\<close>
  | Bug_long_subpkt         \<comment> \<open>log_bug("build_sig_packet: long subpackets are nyi")\<close>
  | Bug_packet_type         \<comment> \<open>log_bug("invalid packet type in ...")\<close>
  | Bug_s2k_mode            \<comment> \<open>log_bug("do_symkey_enc: s2k=%d")\<close>
  | Assert_failed           \<comment> \<open>a failed assert()\<close>
  | Wrong_payload           \<comment> \<open>the union member read is not the one stored: undefined in C\<close>
  | Overrun                 \<comment> \<open>a read outside the bytes of an array: undefined in C\<close>

subsection \<open>The byte sink (iobuf.h)\<close>

text \<open>
  Modelled from the spec: \<^verbatim>\<open>iobuf.c\<close> is not among the sources; the spec gives the
  contract \<^verbatim>\<open>putByte(sink, b) -> success|failure\<close>,
  \<^verbatim>\<open>writeBytes(sink, bytes) -> success|failure\<close>, temporary buffers and
  \<^verbatim>\<open>setIndeterminateLengthFraming\<close>.  A sink records the bytes it accepted
  (\<open>sdata\<close>), the calls of \<^verbatim>\<open>iobuf_set_block_mode\<close> with the number of bytes accepted
  before each (\<open>sblock\<close>), and how many byte writes were attempted (\<open>scount\<close>).
  Whether the \<open>i\<close>-th attempted byte write fails is \<open>sfail i\<close>: any deterministic
  pattern of failures is a sink.  A failed write stores nothing.
\<close>

record sink =
  sdata :: "byte list"
  sblock :: "(nat \<times> nat) list"
  scount :: nat
  sfail :: "nat \<Rightarrow> bool"

text \<open>Modelled from the spec: \<^verbatim>\<open>iobuf_put\<close>, returning 0 or -1.\<close>

definition iobuf_put :: "sink \<Rightarrow> byte \<Rightarrow> int \<times> sink" where
  "iobuf_put out c =
     (if sfail out (scount out) then (- 1, out\<lparr>scount := Suc (scount out)\<rparr>)
      else (0, out\<lparr>sdata := sdata out @ [c], scount := Suc (scount out)\<rparr>))"

text \<open>Modelled from the spec: \<^verbatim>\<open>iobuf_write\<close>, byte after byte, stopping with -1 at the
  first byte that fails.\<close>

fun iobuf_write :: "sink \<Rightarrow> byte list \<Rightarrow> int \<times> sink" where
  "iobuf_write out [] = (0, out)"
| "iobuf_write out (c # cs) =
     (case iobuf_put out c of (rc, out') \<Rightarrow>
        if rc \<noteq> 0 then (- 1, out') else iobuf_write out' cs)"

text \<open>Modelled from the spec: \<^verbatim>\<open>iobuf_temp\<close>, a fresh buffer in memory that accepts
  every byte; \<^verbatim>\<open>iobuf_get_temp_length\<close>; \<^verbatim>\<open>iobuf_write_temp\<close>, which copies the
  staged bytes to another sink; \<^verbatim>\<open>iobuf_set_block_mode\<close>.\<close>

definition iobuf_temp :: sink where
  "iobuf_temp = \<lparr>sdata = [], sblock = [], scount = 0, sfail = (\<lambda>_. False)\<rparr>"

definition iobuf_get_temp_length :: "sink \<Rightarrow> u32" where
  "iobuf_get_temp_length a = of_nat (length (sdata a))"

definition iobuf_write_temp :: "sink \<Rightarrow> sink \<Rightarrow> int \<times> sink" where
  "iobuf_write_temp out a = iobuf_write out (sdata a)"

definition iobuf_set_block_mode :: "sink \<Rightarrow> nat \<Rightarrow> sink" where
  "iobuf_set_block_mode out n = out\<lparr>sblock := sblock out @ [(length (sdata out), n)]\<rparr>"

subsection \<open>Primitive writers\<close>

text \<open>
  \<^verbatim>\<open>
  static int write_16(IOBUF out, u16 a)
  {   iobuf_put(out, a>>8);
      if( iobuf_put(out,a) ) return -1;
      return 0; }
  \<close>
  The byte stored by \<^verbatim>\<open>iobuf_put\<close> is the low octet of its argument (\<open>ucast\<close>).
\<close>

definition write_16 :: "sink \<Rightarrow> u16 \<Rightarrow> int \<times> sink" where
  "write_16 out a =
     (let out = snd (iobuf_put out (ucast (drop_bit 8 a)))
      in case iobuf_put out (ucast a) of (r, out) \<Rightarrow>
           if r \<noteq> 0 then (- 1, out) else (0, out))"

definition write_32 :: "sink \<Rightarrow> u32 \<Rightarrow> int \<times> sink" where
  "write_32 out a =
     (let out = snd (iobuf_put out (ucast (drop_bit 24 a)));
          out = snd (iobuf_put out (ucast (drop_bit 16 a)));
          out = snd (iobuf_put out (ucast (drop_bit 8 a)))
      in case iobuf_put out (ucast a) of (r, out) \<Rightarrow>
           if r \<noteq> 0 then (- 1, out) else (0, out))"

definition write_version :: "sink \<Rightarrow> u32 \<Rightarrow> int \<times> sink" where
  "write_version out ctb =
     (case iobuf_put out 3 of (r, out) \<Rightarrow> if r \<noteq> 0 then (- 1, out) else (0, out))"

subsection \<open>Header codec\<close>

definition calc_header_length :: "u32 \<Rightarrow> int" where
  "calc_header_length len =
     (if len = 0 then 1
      else if len < 256 then 2
      else if len < 65536 then 3
      else 5)"

text \<open>
  \<^verbatim>\<open>write_new_header\<close>: every \<^verbatim>\<open>iobuf_put\<close> is checked, and \<^verbatim>\<open>log_bug\<close> ends the
  process (after the ctb has been written when the length is 0).
\<close>

definition write_new_header :: "sink \<Rightarrow> u32 \<Rightarrow> u32 \<Rightarrow> u32 \<Rightarrow> fatal + int \<times> sink" where
  "write_new_header out ctb len hdrlen =
     (if hdrlen \<noteq> 0 then Inl Bug_hdrlen
      else case iobuf_put out (ucast ctb) of (r, out) \<Rightarrow>
        if r \<noteq> 0 then Inr (- 1, out)
        else if len = 0 then Inl Bug_partial_header
        else if len < 192 then
          (case iobuf_put out (ucast len) of (r, out) \<Rightarrow>
             if r \<noteq> 0 then Inr (- 1, out) else Inr (0, out))
        else if len < 8384 then
          (let len = len - 192 in
           case iobuf_put out (ucast (len div 256 + 192)) of (r, out) \<Rightarrow>
             if r \<noteq> 0 then Inr (- 1, out)
             else case iobuf_put out (ucast (len mod 256)) of (r, out) \<Rightarrow>
               if r \<noteq> 0 then Inr (- 1, out) else Inr (0, out))
        else
          (case iobuf_put out 0xff of (r, out) \<Rightarrow>
             if r \<noteq> 0 then Inr (- 1, out)
             else case iobuf_put out (ucast (drop_bit 24 len AND 0xff)) of (r, out) \<Rightarrow>
               if r \<noteq> 0 then Inr (- 1, out)
               else case iobuf_put out (ucast (drop_bit 16 len AND 0xff)) of (r, out) \<Rightarrow>
                 if r \<noteq> 0 then Inr (- 1, out)
                 else case iobuf_put out (ucast (drop_bit 8 len AND 0xff)) of (r, out) \<Rightarrow>
                   if r \<noteq> 0 then Inr (- 1, out)
                   else case iobuf_put out (ucast (len AND 0xff)) of (r, out) \<Rightarrow>
                     if r \<noteq> 0 then Inr (- 1, out) else Inr (0, out)))"

text \<open>
  \<^verbatim>\<open>write_header2\<close>: the selector is or-ed into the ctb; only the write of the ctb and
  the write of the last length byte are checked.
\<close>

definition write_header2 :: "sink \<Rightarrow> u32 \<Rightarrow> u32 \<Rightarrow> u32 \<Rightarrow> bool \<Rightarrow> fatal + int \<times> sink" where
  "write_header2 out ctb len hdrlen blkmode =
     (if ctb AND 0x40 \<noteq> 0 then write_new_header out ctb len hdrlen
      else
        let ctb =
          (if hdrlen \<noteq> 0 then
             (if len = 0 then ctb OR 3
              else if hdrlen = 2 \<and> len < 256 then ctb
              else if hdrlen = 3 \<and> len < 65536 then ctb OR 1
              else ctb OR 2)
           else
             (if len = 0 then ctb OR 3
              else if len < 256 then ctb
              else if len < 65536 then ctb OR 1
              else ctb OR 2))
        in case iobuf_put out (ucast ctb) of (r, out) \<Rightarrow>
          if r \<noteq> 0 then Inr (- 1, out)
          else if len = 0 then
            Inr (0, if blkmode then iobuf_set_block_mode out 8196 else out)
          else
            let out = (if ctb AND 2 \<noteq> 0
                       then snd (iobuf_put (snd (iobuf_put out (ucast (drop_bit 24 len))))
                                           (ucast (drop_bit 16 len)))
                       else out);
                out = (if ctb AND 3 \<noteq> 0 then snd (iobuf_put out (ucast (drop_bit 8 len)))
                       else out)
            in case iobuf_put out (ucast len) of (r, out) \<Rightarrow>
                 if r \<noteq> 0 then Inr (- 1, out) else Inr (0, out))"

definition write_header :: "sink \<Rightarrow> u32 \<Rightarrow> u32 \<Rightarrow> fatal + int \<times> sink" where
  "write_header out ctb len = write_header2 out ctb len 0 True"

text \<open>Reading a sequence of octets as a big-endian number, as a decoder of the format
  does.\<close>

definition be_decode :: "byte list \<Rightarrow> nat" where
  "be_decode bs = foldl (\<lambda>acc b. acc * 256 + unat b) 0 bs"

subsection \<open>Signature subpackets\<close>

text \<open>
  A subpacket area (\<^verbatim>\<open>sig->hashed_data\<close>, \<^verbatim>\<open>sig->unhashed_data\<close>) is a pointer: \<open>None\<close>
  is \<^verbatim>\<open>NULL\<close>, \<open>Some bs\<close> the allocated octets, two octets of length first.  A
  \<^verbatim>\<open>sigsubpkttype_t\<close> is the number of the enumerator.
\<close>

type_synonym region = "byte list option"

text \<open>Modelled from the spec: \<^verbatim>\<open>packet.h\<close> is not among the sources; the spec names the
  creation-time type and "one other type" as the hashed ones and the issuer key id as
  unhashed.  The numbers are the ones of the OpenPGP format.\<close>

definition SIGSUBPKT_SIG_CREATED :: nat where "SIGSUBPKT_SIG_CREATED = 2"
definition SIGSUBPKT_ISSUER :: nat where "SIGSUBPKT_ISSUER = 16"
definition SIGSUBPKT_PRIV_ADD_SIG :: nat where "SIGSUBPKT_PRIV_ADD_SIG = 101"

text \<open>
  The results of \<^verbatim>\<open>find_subpkt\<close>.  \<open>Found p hlen n\<close>: the returned pointer is
  \<^verbatim>\<open>buffer + p\<close>, with \<^verbatim>\<open>*ret_hlen = hlen\<close> and \<^verbatim>\<open>*ret_n = n\<close>.  \<open>Not_found\<close>: \<^verbatim>\<open>NULL\<close> at
  the end of the subpackets.  \<open>Short_buffer\<close>: \<^verbatim>\<open>NULL\<close> after
  \<^verbatim>\<open>log_error("find_subpkt: buffer shorter than subpacket")\<close>.
\<close>

datatype find_result = Found nat nat nat | Not_found | Short_buffer

text \<open>
  The length of one subpacket, at \<^verbatim>\<open>n = *buffer++; buflen--;\<close> done: the first octet
  \<open>n\<close>, the position \<open>pos\<close> after it and the remaining \<open>buflen\<close>.  \<open>None\<close> is the
  \<^verbatim>\<open>break\<close>.  In the two-octet form the code reads \<^verbatim>\<open>*buffer\<close> and decrements
  \<^verbatim>\<open>buflen\<close>, but does not advance \<^verbatim>\<open>buffer\<close>.  The five-octet length is computed in
  32 bits; \<^verbatim>\<open>buflen\<close> never exceeds 65535, so a wider \<^verbatim>\<open>size_t\<close> changes no comparison.
\<close>

definition subpkt_length :: "byte list \<Rightarrow> nat \<Rightarrow> nat \<Rightarrow> nat \<Rightarrow> fatal + (nat \<times> nat \<times> nat) option" where
  "subpkt_length buffer n pos buflen =
     (if n = 255 then
        (if buflen < 4 then Inr None
         else if length buffer < pos + 4 then Inl Overrun
         else Inr (Some
           (unat (push_bit 24 (ucast (buffer ! pos) :: u32)
                  OR push_bit 16 (ucast (buffer ! (pos + 1)))
                  OR push_bit 8 (ucast (buffer ! (pos + 2)))
                  OR ucast (buffer ! (pos + 3))),
            pos + 4, buflen - 4)))
      else if n \<ge> 192 then
        (if buflen < 2 then Inr None
         else if length buffer \<le> pos then Inl Overrun
         else Inr (Some ((n - 192) * 256 + unat (buffer ! pos) + 192, pos, buflen - 1)))
      else Inr (Some (n, pos, buflen)))"

text \<open>
  The loop of \<^verbatim>\<open>find_subpkt\<close>, \<open>pos\<close> being \<^verbatim>\<open>buffer\<close> as an index.  After a match the
  code decrements the \<^verbatim>\<open>size_t n\<close>: from 0 it wraps to the largest value, which exceeds
  \<^verbatim>\<open>buflen\<close>, hence the \<^verbatim>\<open>break\<close>.
\<close>

function find_loop :: "byte list \<Rightarrow> nat \<Rightarrow> nat \<Rightarrow> nat \<Rightarrow> fatal + find_result" where
  "find_loop buffer reqtype pos buflen =
     (if buflen = 0 then Inr Not_found
      else if length buffer \<le> pos then Inl Overrun
      else
        case subpkt_length buffer (unat (buffer ! pos)) (pos + 1) (buflen - 1) of
          Inl e \<Rightarrow> Inl e
        | Inr None \<Rightarrow> Inr Short_buffer
        | Inr (Some (n, pos', buflen')) \<Rightarrow>
            if buflen' < n then Inr Short_buffer
            else if length buffer \<le> pos' then Inl Overrun
            else if unat (buffer ! pos' AND 0x7f) = reqtype then
              (if n = 0 then Inr Short_buffer
               else if n - 1 > buflen' then Inr Short_buffer
               else Inr (Found (pos' + 1) (pos' + 1 - pos) (n - 1)))
            else find_loop buffer reqtype (pos' + n) (buflen' - n))"
  by pat_completeness auto
termination
  by (relation "measure (\<lambda>(buffer, reqtype, pos, buflen). buflen)")
     (auto simp: subpkt_length_def split: if_splits)

declare find_loop.simps [simp del]

text \<open>The length an area declares in its first two octets:
  \<^verbatim>\<open>(*buffer << 8) | buffer[1]\<close>.\<close>

definition area_length :: "byte list \<Rightarrow> nat" where
  "area_length p = unat (push_bit 8 (ucast (p ! 0) :: u32) OR ucast (p ! 1))"

definition find_subpkt :: "region \<Rightarrow> nat \<Rightarrow> fatal + find_result" where
  "find_subpkt region reqtype =
     (case region of
        None \<Rightarrow> Inr Not_found
      | Some buffer \<Rightarrow>
          if length buffer < 2 then Inl Overrun
          else find_loop buffer reqtype 2 (area_length buffer))"

text \<open>The pointer \<^verbatim>\<open>find_subpkt\<close> returns is \<^verbatim>\<open>NULL\<close> unless the subpacket was found.\<close>

fun is_found :: "find_result \<Rightarrow> bool" where
  "is_found (Found p hlen n) = True"
| "is_found Not_found = False"
| "is_found Short_buffer = False"

text \<open>
  Modelled from the spec: \<^verbatim>\<open>memory.c\<close> is not among the sources.  \<^verbatim>\<open>m_alloc\<close> returns
  \<open>k\<close> octets and \<^verbatim>\<open>m_realloc\<close> keeps the old octets that fit; the contents of new
  memory are not specified in C and are zero here.
\<close>

definition m_alloc :: "nat \<Rightarrow> byte list" where
  "m_alloc k = replicate k 0"

definition m_realloc :: "byte list \<Rightarrow> nat \<Rightarrow> byte list" where
  "m_realloc p k = take k p @ replicate (k - length p) 0"

text \<open>\<^verbatim>\<open>memcpy(dst + off, src, k)\<close>, for \<open>off + k \<le> length dst\<close> and \<open>k \<le> length src\<close>.\<close>

definition memcpy :: "byte list \<Rightarrow> nat \<Rightarrow> byte list \<Rightarrow> nat \<Rightarrow> byte list" where
  "memcpy dst off src k = take off dst @ take k src @ drop (off + k) dst"

text \<open>Modelled from the spec: the struct \<^verbatim>\<open>PKT_signature\<close> of \<^verbatim>\<open>packet.h\<close> is not among
  the sources.  The record has the fields the code reads; the members of the union
  \<^verbatim>\<open>d\<close> are separate fields.\<close>

record PKT_signature =
  sig_version :: byte
  sig_class :: byte
  sig_pubkey_algo :: byte
  sig_digest_algo :: byte
  hashed_data :: region
  unhashed_data :: region
  digest_start :: "byte \<times> byte"
  sig_keyid :: "u32 \<times> u32"
  sig_timestamp :: u32
  sig_elg_a :: "byte list"
  sig_elg_b :: "byte list"
  sig_dsa_r :: "byte list"
  sig_dsa_s :: "byte list"
  sig_rsa_integer :: "byte list"

text \<open>
  The two branches of \<^verbatim>\<open>build_sig_subpkt\<close> (\<^verbatim>\<open>if( hashed ) ... else ...\<close>) are the same
  code on \<^verbatim>\<open>sig->hashed_data\<close> and on \<^verbatim>\<open>sig->unhashed_data\<close>; \<open>subpkt_append\<close> is that
  code together with the five stores that follow it, on either area:
  \<^verbatim>\<open>
      n0 = area ? ((*area << 8) | area[1]) : 0;
      n = n0 + 1 + 1 + buflen;
      data = area ? m_realloc( area, n+2 ) : m_alloc( n+2 );
      data[n0+0] = (n >> 8) & 0xff;
      data[n0+1] = n & 0xff;
      data[n0+2] = buflen+1;
      data[n0+3] = type;
      memcpy(data+n0+4, buffer, buflen );
  \<close>
\<close>

definition subpkt_append :: "region \<Rightarrow> nat \<Rightarrow> byte list \<Rightarrow> nat \<Rightarrow> fatal + byte list" where
  "subpkt_append area type buffer buflen =
     (case (case area of
              None \<Rightarrow> Inr 0
            | Some p \<Rightarrow> if length p < 2 then Inl Overrun else Inr (area_length p)) of
        Inl e \<Rightarrow> Inl e
      | Inr n0 \<Rightarrow>
          let n = n0 + 1 + 1 + buflen;
              data = (case area of Some p \<Rightarrow> m_realloc p (n + 2) | None \<Rightarrow> m_alloc (n + 2));
              data = data[n0 + 0 := of_nat (n div 256 mod 256)];
              data = data[n0 + 1 := of_nat (n mod 256)];
              data = data[n0 + 2 := of_nat (buflen + 1)];
              data = data[n0 + 3 := of_nat type]
          in if length buffer < buflen then Inl Overrun
             else Inr (memcpy data (n0 + 4) buffer buflen))"

definition build_sig_subpkt :: "PKT_signature \<Rightarrow> nat \<Rightarrow> byte list \<Rightarrow> nat \<Rightarrow> fatal + PKT_signature" where
  "build_sig_subpkt sig type buffer buflen =
     (case find_subpkt (hashed_data sig) type of
        Inl e \<Rightarrow> Inl e
      | Inr r1 \<Rightarrow>
     (case (if is_found r1 then Inr (1::nat)
            else case find_subpkt (unhashed_data sig) type of
                   Inl e \<Rightarrow> Inl e
                 | Inr r2 \<Rightarrow> Inr (if is_found r2 then 2 else 0)) of
        Inl e \<Rightarrow> Inl e
      | Inr found \<Rightarrow>
          if found \<noteq> 0 then Inl Bug_update_nyi
          else if buflen + 1 \<ge> 192 then Inl Bug_long_subpkt
          else
            let hashed = (type = SIGSUBPKT_SIG_CREATED \<or> type = SIGSUBPKT_PRIV_ADD_SIG)
            in if hashed then
                 (case subpkt_append (hashed_data sig) type buffer buflen of
                    Inl e \<Rightarrow> Inl e
                  | Inr data \<Rightarrow> Inr (sig\<lparr>hashed_data := Some data\<rparr>))
               else
                 (case subpkt_append (unhashed_data sig) type buffer buflen of
                    Inl e \<Rightarrow> Inl e
                  | Inr data \<Rightarrow> Inr (sig\<lparr>unhashed_data := Some data\<rparr>))))"

text \<open>\<^verbatim>\<open>build_sig_subpkt_from_sig\<close>: the key id into an issuer subpacket, the timestamp
  into a creation-time subpacket.  The second call passes the same \<^verbatim>\<open>buf[8]\<close>, its first
  four octets overwritten with the timestamp.\<close>

definition u32_octets :: "u32 \<Rightarrow> byte list" where
  "u32_octets u = [ucast (drop_bit 24 u AND 0xff), ucast (drop_bit 16 u AND 0xff),
                   ucast (drop_bit 8 u AND 0xff), ucast (u AND 0xff)]"

definition build_sig_subpkt_from_sig :: "PKT_signature \<Rightarrow> fatal + PKT_signature" where
  "build_sig_subpkt_from_sig sig =
     (case build_sig_subpkt sig SIGSUBPKT_ISSUER
             (u32_octets (fst (sig_keyid sig)) @ u32_octets (snd (sig_keyid sig))) 8 of
        Inl e \<Rightarrow> Inl e
      | Inr sig' \<Rightarrow>
          build_sig_subpkt sig' SIGSUBPKT_SIG_CREATED
            (u32_octets (sig_timestamp sig') @ u32_octets (snd (sig_keyid sig'))) 4)"

subsection \<open>Packets\<close>

text \<open>
  Modelled from the spec: \<^verbatim>\<open>mpi.h\<close> is not among the sources, and the spec leaves the
  wire format of a big integer to that subsystem (\<^verbatim>\<open>writeInteger(sink, integer)\<close>).  An
  \<^verbatim>\<open>MPI\<close> is given by the octets \<^verbatim>\<open>mpi_write\<close> emits for it.
\<close>

type_synonym MPI = "byte list"

definition mpi_write :: "sink \<Rightarrow> MPI \<Rightarrow> int \<times> sink" where
  "mpi_write a m = iobuf_write a m"

text \<open>Modelled from the spec: \<^verbatim>\<open>errors.h\<close> is not among the sources; the spec has the
  unknown-algorithm error and the write failure as two kinds of error.  The numbers are
  any two different nonzero ones.\<close>

definition G10ERR_PUBKEY_ALGO :: int where "G10ERR_PUBKEY_ALGO = 4"
definition G10ERR_WRITE_FILE :: int where "G10ERR_WRITE_FILE = 22"

text \<open>Modelled from the spec: \<^verbatim>\<open>cipher.h\<close> is not among the sources; the spec has the RSA
  family, DSA and the ElGamal family.  The numbers are the ones of the OpenPGP
  format.\<close>

definition PUBKEY_ALGO_DSA :: byte where "PUBKEY_ALGO_DSA = 17"

definition is_RSA :: "byte \<Rightarrow> bool" where
  "is_RSA a = (a = 1 \<or> a = 2 \<or> a = 3)"

definition is_ELGAMAL :: "byte \<Rightarrow> bool" where
  "is_ELGAMAL a = (a = 20 \<or> a = 16)"

text \<open>Modelled from the spec: the enumeration \<^verbatim>\<open>pkttype_t\<close> of \<^verbatim>\<open>packet.h\<close> is not among
  the sources; the spec has the packet kinds, in the range 0 to 63.  The numbers are
  the packet tags of the OpenPGP format.\<close>

definition PKT_PUBKEY_ENC :: nat where "PKT_PUBKEY_ENC = 1"
definition PKT_SIGNATURE :: nat where "PKT_SIGNATURE = 2"
definition PKT_SYMKEY_ENC :: nat where "PKT_SYMKEY_ENC = 3"
definition PKT_ONEPASS_SIG :: nat where "PKT_ONEPASS_SIG = 4"
definition PKT_SECRET_CERT :: nat where "PKT_SECRET_CERT = 5"
definition PKT_PUBLIC_CERT :: nat where "PKT_PUBLIC_CERT = 6"
definition PKT_SECKEY_SUBCERT :: nat where "PKT_SECKEY_SUBCERT = 7"
definition PKT_COMPRESSED :: nat where "PKT_COMPRESSED = 8"
definition PKT_ENCRYPTED :: nat where "PKT_ENCRYPTED = 9"
definition PKT_PLAINTEXT :: nat where "PKT_PLAINTEXT = 11"
definition PKT_RING_TRUST :: nat where "PKT_RING_TRUST = 12"
definition PKT_USER_ID :: nat where "PKT_USER_ID = 13"
definition PKT_PUBKEY_SUBCERT :: nat where "PKT_PUBKEY_SUBCERT = 14"
definition PKT_OLD_COMMENT :: nat where "PKT_OLD_COMMENT = 16"
definition PKT_COMMENT :: nat where "PKT_COMMENT = 61"

text \<open>
  Modelled from the spec: the structs of \<^verbatim>\<open>packet.h\<close> are not among the sources.  The
  records have the fields the code reads, under the code's names with the struct as a
  prefix; the members of the union \<^verbatim>\<open>d\<close> are separate fields, and the byte arrays
  \<^verbatim>\<open>salt[8]\<close> and \<^verbatim>\<open>iv[8]\<close> have eight octets.  \<^verbatim>\<open>namelen\<close> and the lengths of comments
  and user ids are given by their values.
\<close>

record PKT_comment =
  rem_len :: nat
  rem_data :: "byte list"

record PKT_user_id =
  uid_len :: nat
  uid_name :: "byte list"

record PKT_public_cert =
  pkc_timestamp :: u32
  pkc_valid_days :: u16
  pkc_hdrbytes :: byte
  pkc_version :: byte
  pkc_pubkey_algo :: byte
  pkc_elg_p :: MPI
  pkc_elg_g :: MPI
  pkc_elg_y :: MPI
  pkc_dsa_p :: MPI
  pkc_dsa_q :: MPI
  pkc_dsa_g :: MPI
  pkc_dsa_y :: MPI
  pkc_rsa_n :: MPI
  pkc_rsa_e :: MPI

record STRING2KEY =
  s2k_mode :: u32
  s2k_hash_algo :: byte
  s2k_salt :: "byte list"
  s2k_count :: u32

record PKT_secret_cert =
  skc_timestamp :: u32
  skc_valid_days :: u16
  skc_hdrbytes :: byte
  skc_version :: byte
  skc_pubkey_algo :: byte
  skc_is_protected :: bool
  skc_protect_algo :: byte
  skc_protect_s2k :: STRING2KEY
  skc_protect_iv :: "byte list"
  skc_csum :: u16
  skc_elg_p :: MPI
  skc_elg_g :: MPI
  skc_elg_y :: MPI
  skc_elg_x :: MPI
  skc_dsa_p :: MPI
  skc_dsa_q :: MPI
  skc_dsa_g :: MPI
  skc_dsa_y :: MPI
  skc_dsa_x :: MPI
  skc_rsa_n :: MPI
  skc_rsa_e :: MPI
  skc_rsa_d :: MPI
  skc_rsa_p :: MPI
  skc_rsa_q :: MPI
  skc_rsa_u :: MPI

record PKT_symkey_enc =
  ske_version :: byte
  ske_cipher_algo :: byte
  ske_s2k :: STRING2KEY
  ske_seskeylen :: byte
  ske_seskey :: "byte list"

record PKT_pubkey_enc =
  pke_keyid :: "u32 \<times> u32"
  pke_pubkey_algo :: byte
  pke_elg_a :: MPI
  pke_elg_b :: MPI
  pke_rsa_integer :: MPI

record PKT_plaintext =
  pt_len :: u32
  pt_buf :: "byte list"
  pt_mode :: u32
  pt_timestamp :: u32
  pt_namelen :: int
  pt_name :: "byte list"

record PKT_encrypted =
  ed_len :: u32

record PKT_compressed =
  cd_algorithm :: byte

record PKT_onepass_sig =
  ops_keyid :: "u32 \<times> u32"
  ops_sig_class :: byte
  ops_digest_algo :: byte
  ops_pubkey_algo :: byte
  ops_last :: byte

text \<open>What \<^verbatim>\<open>log_error\<close> reports: the call is recorded, the process goes on.\<close>

datatype diag = Length_mismatch u32 u32

text \<open>
  The end of every encoder that stages its packet in a temporary buffer \<open>a\<close>:
  \<^verbatim>\<open>
      write_header2(out, ctb, iobuf_get_temp_length(a), hdrlen, 1 );
      if( iobuf_write_temp( out, a ) )
          rc = G10ERR_WRITE_FILE;
  \<close>
  (\<^verbatim>\<open>write_header\<close> is \<^verbatim>\<open>write_header2\<close> with \<open>hdrlen = 0\<close>); the value of
  \<^verbatim>\<open>write_header2\<close> is not looked at.
\<close>

definition write_staged :: "sink \<Rightarrow> u32 \<Rightarrow> sink \<Rightarrow> u32 \<Rightarrow> fatal + int \<times> sink" where
  "write_staged out ctb a hdrlen =
     (case write_header2 out ctb (iobuf_get_temp_length a) hdrlen True of
        Inl e \<Rightarrow> Inl e
      | Inr (r, out) \<Rightarrow>
          (case iobuf_write_temp out a of (r, out) \<Rightarrow>
             Inr (if r \<noteq> 0 then G10ERR_WRITE_FILE else 0, out)))"

definition do_comment :: "bool \<Rightarrow> sink \<Rightarrow> u32 \<Rightarrow> PKT_comment \<Rightarrow> fatal + int \<times> sink" where
  "do_comment no_comment out ctb rem =
     (if \<not> no_comment then
        (case write_header out ctb (of_nat (rem_len rem)) of
           Inl e \<Rightarrow> Inl e
         | Inr (r, out) \<Rightarrow>
             if length (rem_data rem) < rem_len rem then Inl Overrun
             else case iobuf_write out (take (rem_len rem) (rem_data rem)) of (r, out) \<Rightarrow>
               if r \<noteq> 0 then Inr (G10ERR_WRITE_FILE, out) else Inr (0, out))
      else Inr (0, out))"

definition do_user_id :: "sink \<Rightarrow> u32 \<Rightarrow> PKT_user_id \<Rightarrow> fatal + int \<times> sink" where
  "do_user_id out ctb uid =
     (case write_header out ctb (of_nat (uid_len uid)) of
        Inl e \<Rightarrow> Inl e
      | Inr (r, out) \<Rightarrow>
          if length (uid_name uid) < uid_len uid then Inl Overrun
          else case iobuf_write out (take (uid_len uid) (uid_name uid)) of (r, out) \<Rightarrow>
            if r \<noteq> 0 then Inr (G10ERR_WRITE_FILE, out) else Inr (0, out))"

definition do_public_cert :: "sink \<Rightarrow> u32 \<Rightarrow> PKT_public_cert \<Rightarrow> fatal + int \<times> sink" where
  "do_public_cert out ctb pkc =
     (let a = iobuf_temp;
          a = (if pkc_version pkc = 0 then snd (iobuf_put a 3)
               else snd (iobuf_put a (pkc_version pkc)));
          a = snd (write_32 a (pkc_timestamp pkc));
          a = (if pkc_version pkc < 4 then snd (write_16 a (pkc_valid_days pkc)) else a);
          a = snd (iobuf_put a (pkc_pubkey_algo pkc))
      in if is_ELGAMAL (pkc_pubkey_algo pkc) then
           (let a = snd (mpi_write a (pkc_elg_p pkc));
                a = snd (mpi_write a (pkc_elg_g pkc));
                a = snd (mpi_write a (pkc_elg_y pkc))
            in write_staged out ctb a (ucast (pkc_hdrbytes pkc)))
         else if pkc_pubkey_algo pkc = PUBKEY_ALGO_DSA then
           (let a = snd (mpi_write a (pkc_dsa_p pkc));
                a = snd (mpi_write a (pkc_dsa_q pkc));
                a = snd (mpi_write a (pkc_dsa_g pkc));
                a = snd (mpi_write a (pkc_dsa_y pkc))
            in write_staged out ctb a (ucast (pkc_hdrbytes pkc)))
         else if is_RSA (pkc_pubkey_algo pkc) then
           (let a = snd (mpi_write a (pkc_rsa_n pkc));
                a = snd (mpi_write a (pkc_rsa_e pkc))
            in write_staged out ctb a (ucast (pkc_hdrbytes pkc)))
         else Inr (G10ERR_PUBKEY_ALGO, out))"

text \<open>The protection block that \<^verbatim>\<open>do_secret_cert\<close> writes, in the same words, for
  ElGamal and for DSA keys.\<close>

definition write_protect :: "sink \<Rightarrow> PKT_secret_cert \<Rightarrow> sink" where
  "write_protect a skc =
     (if skc_is_protected skc then
        (let s2k = skc_protect_s2k skc;
             a = snd (iobuf_put a 0xff);
             a = snd (iobuf_put a (skc_protect_algo skc));
             a = snd (iobuf_put a (ucast (s2k_mode s2k)));
             a = snd (iobuf_put a (s2k_hash_algo s2k));
             a = (if s2k_mode s2k = 1 \<or> s2k_mode s2k = 4
                  then snd (iobuf_write a (take 8 (s2k_salt s2k))) else a);
             a = (if s2k_mode s2k = 4 then snd (write_32 a (s2k_count s2k)) else a)
         in snd (iobuf_write a (take 8 (skc_protect_iv skc))))
      else snd (iobuf_put a 0))"

definition do_secret_cert :: "sink \<Rightarrow> u32 \<Rightarrow> PKT_secret_cert \<Rightarrow> fatal + int \<times> sink" where
  "do_secret_cert out ctb skc =
     (let a = iobuf_temp;
          a = (if skc_version skc = 0 then snd (iobuf_put a 3)
               else snd (iobuf_put a (skc_version skc)));
          a = snd (write_32 a (skc_timestamp skc));
          a = (if skc_version skc < 4 then snd (write_16 a (skc_valid_days skc)) else a);
          a = snd (iobuf_put a (skc_pubkey_algo skc))
      in if is_ELGAMAL (skc_pubkey_algo skc) then
           (let a = snd (mpi_write a (skc_elg_p skc));
                a = snd (mpi_write a (skc_elg_g skc));
                a = snd (mpi_write a (skc_elg_y skc));
                a = write_protect a skc;
                a = snd (mpi_write a (skc_elg_x skc));
                a = snd (write_16 a (skc_csum skc))
            in write_staged out ctb a (ucast (skc_hdrbytes skc)))
         else if skc_pubkey_algo skc = PUBKEY_ALGO_DSA then
           (let a = snd (mpi_write a (skc_dsa_p skc));
                a = snd (mpi_write a (skc_dsa_q skc));
                a = snd (mpi_write a (skc_dsa_g skc));
                a = snd (mpi_write a (skc_dsa_y skc));
                a = write_protect a skc;
                a = snd (mpi_write a (skc_dsa_x skc));
                a = snd (write_16 a (skc_csum skc))
            in write_staged out ctb a (ucast (skc_hdrbytes skc)))
         else if is_RSA (skc_pubkey_algo skc) then
           (let a = snd (mpi_write a (skc_rsa_n skc));
                a = snd (mpi_write a (skc_rsa_e skc));
                a = (if skc_is_protected skc then
                       snd (iobuf_write (snd (iobuf_put a (skc_protect_algo skc)))
                                        (take 8 (skc_protect_iv skc)))
                     else snd (iobuf_put a 0));
                a = snd (mpi_write a (skc_rsa_d skc));
                a = snd (mpi_write a (skc_rsa_p skc));
                a = snd (mpi_write a (skc_rsa_q skc));
                a = snd (mpi_write a (skc_rsa_u skc));
                a = snd (write_16 a (skc_csum skc))
            in write_staged out ctb a (ucast (skc_hdrbytes skc)))
         else Inr (G10ERR_PUBKEY_ALGO, out))"

definition do_symkey_enc :: "sink \<Rightarrow> u32 \<Rightarrow> PKT_symkey_enc \<Rightarrow> fatal + int \<times> sink" where
  "do_symkey_enc out ctb enc =
     (let s2k = ske_s2k enc in
      if ske_version enc \<noteq> 4 then Inl Assert_failed
      else if \<not> (s2k_mode s2k = 0 \<or> s2k_mode s2k = 1 \<or> s2k_mode s2k = 4) then Inl Bug_s2k_mode
      else
        let a = iobuf_temp;
            a = snd (iobuf_put a (ske_version enc));
            a = snd (iobuf_put a (ske_cipher_algo enc));
            a = snd (iobuf_put a (ucast (s2k_mode s2k)));
            a = snd (iobuf_put a (s2k_hash_algo s2k));
            a = (if s2k_mode s2k = 1 \<or> s2k_mode s2k = 4 then
                   (let a = snd (iobuf_write a (take 8 (s2k_salt s2k)))
                    in if s2k_mode s2k = 4 then snd (write_32 a (s2k_count s2k)) else a)
                 else a)
        in if length (ske_seskey enc) < unat (ske_seskeylen enc) then Inl Overrun
           else
             let a = (if ske_seskeylen enc \<noteq> 0
                      then snd (iobuf_write a (take (unat (ske_seskeylen enc)) (ske_seskey enc)))
                      else a)
             in write_staged out ctb a 0)"

definition do_pubkey_enc :: "sink \<Rightarrow> u32 \<Rightarrow> PKT_pubkey_enc \<Rightarrow> fatal + int \<times> sink" where
  "do_pubkey_enc out ctb enc =
     (let a = iobuf_temp;
          a = snd (write_version a ctb);
          a = snd (write_32 a (fst (pke_keyid enc)));
          a = snd (write_32 a (snd (pke_keyid enc)));
          a = snd (iobuf_put a (pke_pubkey_algo enc))
      in if is_ELGAMAL (pke_pubkey_algo enc) then
           (let a = snd (mpi_write a (pke_elg_a enc));
                a = snd (mpi_write a (pke_elg_b enc))
            in write_staged out ctb a 0)
         else if is_RSA (pke_pubkey_algo enc) then
           (let a = snd (mpi_write a (pke_rsa_integer enc))
            in write_staged out ctb a 0)
         else Inr (G10ERR_PUBKEY_ALGO, out))"

text \<open>\<^verbatim>\<open>calc_plaintext\<close>: the sum is computed in 32 bits.\<close>

definition calc_plaintext :: "PKT_plaintext \<Rightarrow> u32" where
  "calc_plaintext pt =
     (if pt_len pt \<noteq> 0 then 1 + 1 + of_int (pt_namelen pt) + 4 + pt_len pt else 0)"

text \<open>Modelled from the spec: \<^verbatim>\<open>iobuf_read\<close> on the body source
  (\<^verbatim>\<open>pullChunk(source, maxBytes) -> bytes | endOfStream\<close>): the next octets, at most
  \<open>k\<close> of them, or \<open>None\<close> (the C value -1) at the end of the source.\<close>

definition iobuf_read :: "byte list \<Rightarrow> nat \<Rightarrow> (byte list \<times> byte list) option" where
  "iobuf_read src k = (if src = [] then None else Some (take k src, drop k src))"

text \<open>
  The copying loop of \<^verbatim>\<open>do_plaintext\<close>, with the counter \<^verbatim>\<open>u32 n\<close> and \<^verbatim>\<open>rc\<close>:
  \<^verbatim>\<open>
      while( (nbytes=iobuf_read(pt->buf, buf, 1000)) != -1 ) {
          if( iobuf_write(out, buf, nbytes) == -1 ) {
              rc = G10ERR_WRITE_FILE;
              break;
          }
          n += nbytes;
      }
  \<close>
\<close>

function plaintext_loop :: "sink \<Rightarrow> byte list \<Rightarrow> u32 \<Rightarrow> int \<Rightarrow> int \<times> sink \<times> u32" where
  "plaintext_loop out src n rc =
     (case iobuf_read src 1000 of
        None \<Rightarrow> (rc, out, n)
      | Some (buf, src') \<Rightarrow>
          (case iobuf_write out buf of (r, out') \<Rightarrow>
             if r = - 1 then (G10ERR_WRITE_FILE, out', n)
             else plaintext_loop out' src' (n + of_nat (length buf)) rc))"
  by pat_completeness auto
termination
  by (relation "measure (\<lambda>(out, src, n, rc). length src)")
     (auto simp: iobuf_read_def split: if_splits)

declare plaintext_loop.simps [simp del]

definition do_plaintext :: "sink \<Rightarrow> u32 \<Rightarrow> PKT_plaintext \<Rightarrow> fatal + int \<times> sink \<times> diag list" where
  "do_plaintext out ctb pt =
     (case write_header out ctb (calc_plaintext pt) of
        Inl e \<Rightarrow> Inl e
      | Inr (r, out) \<Rightarrow>
          let out = snd (iobuf_put out (ucast (pt_mode pt)));
              out = snd (iobuf_put out (of_int (pt_namelen pt)))
          in if int (length (pt_name pt)) < pt_namelen pt then Inl Overrun
             else
               let out = foldl (\<lambda>out i. snd (iobuf_put out (pt_name pt ! i))) out
                               [0..<nat (pt_namelen pt)]
               in case write_32 out (pt_timestamp pt) of (r, out) \<Rightarrow>
                    (case plaintext_loop out (pt_buf pt) 0
                            (if r \<noteq> 0 then G10ERR_WRITE_FILE else 0) of
                       (rc, out, n) \<Rightarrow>
                         if pt_len pt = 0 then Inr (rc, iobuf_set_block_mode out 0, [])
                         else if n \<noteq> pt_len pt
                           then Inr (rc, out, [Length_mismatch n (pt_len pt)])
                         else Inr (rc, out, [])))"

definition do_encrypted :: "sink \<Rightarrow> u32 \<Rightarrow> PKT_encrypted \<Rightarrow> fatal + int \<times> sink" where
  "do_encrypted out ctb ed =
     (let n = (if ed_len ed \<noteq> 0 then ed_len ed + 10 else 0)
      in case write_header out ctb n of
           Inl e \<Rightarrow> Inl e
         | Inr (r, out) \<Rightarrow> Inr (0, out))"

definition do_compressed :: "sink \<Rightarrow> u32 \<Rightarrow> PKT_compressed \<Rightarrow> fatal + int \<times> sink" where
  "do_compressed out ctb cd =
     (case write_header2 out ctb 0 0 False of
        Inl e \<Rightarrow> Inl e
      | Inr (r, out) \<Rightarrow> Inr (0, snd (iobuf_put out (cd_algorithm cd))))"

text \<open>
  What \<^verbatim>\<open>do_signature\<close> stages for one subpacket area of a version 4 signature:
  \<^verbatim>\<open>
      n = area ? ((area[0]<<8) | area[1]) : 0;
      write_16(a, n);
      if( n )
          iobuf_write( a, area+2, n );
  \<close>
\<close>

definition write_area :: "sink \<Rightarrow> region \<Rightarrow> fatal + sink" where
  "write_area a area =
     (case area of
        None \<Rightarrow> Inr (snd (write_16 a 0))
      | Some p \<Rightarrow>
          if length p < 2 then Inl Overrun
          else
            let n = area_length p;
                a = snd (write_16 a (of_nat n))
            in if n \<noteq> 0 then
                 (if length p < n + 2 then Inl Overrun
                  else Inr (snd (iobuf_write a (take n (drop 2 p)))))
               else Inr a)"

definition do_signature :: "sink \<Rightarrow> u32 \<Rightarrow> PKT_signature \<Rightarrow> fatal + int \<times> sink" where
  "do_signature out ctb sig =
     (let a = iobuf_temp;
          a = (if sig_version sig = 0 then snd (iobuf_put a 3)
               else snd (iobuf_put a (sig_version sig)));
          a = (if sig_version sig < 4 then snd (iobuf_put a 5) else a);
          a = snd (iobuf_put a (sig_class sig));
          a = (if sig_version sig < 4 then
                 (let a = snd (write_32 a (sig_timestamp sig));
                      a = snd (write_32 a (fst (sig_keyid sig)))
                  in snd (write_32 a (snd (sig_keyid sig))))
               else a);
          a = snd (iobuf_put a (sig_pubkey_algo sig));
          a = snd (iobuf_put a (sig_digest_algo sig))
      in case (if sig_version sig \<ge> 4 then
                 (case write_area a (hashed_data sig) of
                    Inl e \<Rightarrow> Inl e
                  | Inr a \<Rightarrow> write_area a (unhashed_data sig))
               else Inr a) of
           Inl e \<Rightarrow> Inl e
         | Inr a \<Rightarrow>
             let a = snd (iobuf_put a (fst (digest_start sig)));
                 a = snd (iobuf_put a (snd (digest_start sig)))
             in if is_ELGAMAL (sig_pubkey_algo sig) then
                  (let a = snd (mpi_write a (sig_elg_a sig));
                       a = snd (mpi_write a (sig_elg_b sig))
                   in write_staged out ctb a 0)
                else if sig_pubkey_algo sig = PUBKEY_ALGO_DSA then
                  (let a = snd (mpi_write a (sig_dsa_r sig));
                       a = snd (mpi_write a (sig_dsa_s sig))
                   in write_staged out ctb a 0)
                else if is_RSA (sig_pubkey_algo sig) then
                  (let a = snd (mpi_write a (sig_rsa_integer sig))
                   in write_staged out ctb a 0)
                else Inr (G10ERR_PUBKEY_ALGO, out))"

definition do_onepass_sig :: "sink \<Rightarrow> u32 \<Rightarrow> PKT_onepass_sig \<Rightarrow> fatal + int \<times> sink" where
  "do_onepass_sig out ctb ops =
     (let a = iobuf_temp;
          a = snd (write_version a ctb);
          a = snd (iobuf_put a (ops_sig_class ops));
          a = snd (iobuf_put a (ops_digest_algo ops));
          a = snd (iobuf_put a (ops_pubkey_algo ops));
          a = snd (write_32 a (fst (ops_keyid ops)));
          a = snd (write_32 a (snd (ops_keyid ops)));
          a = snd (iobuf_put a (ops_last ops))
      in write_staged out ctb a 0)"

subsection \<open>The dispatcher and the length of a packet\<close>

text \<open>
  A \<^verbatim>\<open>PACKET\<close> is a \<^verbatim>\<open>pkttype\<close> and a union of pointers; \<open>Generic_NULL\<close> is the null
  pointer.  Reading the union through a member of another type than the struct it
  points to is \<open>Wrong_payload\<close>.
\<close>

datatype payload =
    Generic_NULL
  | User_id PKT_user_id
  | Comment PKT_comment
  | Public_cert PKT_public_cert
  | Secret_cert PKT_secret_cert
  | Symkey_enc PKT_symkey_enc
  | Pubkey_enc PKT_pubkey_enc
  | Plaintext PKT_plaintext
  | Encrypted PKT_encrypted
  | Compressed PKT_compressed
  | Signature PKT_signature
  | Onepass_sig PKT_onepass_sig

record PACKET =
  pkttype :: nat
  pkt :: payload

text \<open>An encoder that reports nothing, with the empty list of reports.\<close>

definition no_diag :: "fatal + int \<times> sink \<Rightarrow> fatal + int \<times> sink \<times> diag list" where
  "no_diag r = (case r of Inl e \<Rightarrow> Inl e | Inr (rc, out) \<Rightarrow> Inr (rc, out, []))"

text \<open>
  \<^verbatim>\<open>build_packet\<close>; \<open>no_comment\<close> is \<^verbatim>\<open>opt.no_comment\<close>.  The result is \<^verbatim>\<open>rc\<close>, the sink
  and what was reported.  (The code also stores \<^verbatim>\<open>PKT_COMMENT\<close> into a packet of type
  \<^verbatim>\<open>PKT_OLD_COMMENT\<close>.)
\<close>

definition build_packet :: "bool \<Rightarrow> sink \<Rightarrow> PACKET \<Rightarrow> fatal + int \<times> sink \<times> diag list" where
  "build_packet no_comment out p =
     (let t = (if pkttype p = PKT_OLD_COMMENT then PKT_COMMENT else pkttype p)
      in if pkt p = Generic_NULL then Inl Assert_failed
         else
           let ctb = (if t > 15 then 0xc0 OR (of_nat t AND 0x3f)
                      else 0x80 OR push_bit 2 (of_nat t AND 15))
           in if t = PKT_USER_ID then
                (case pkt p of User_id uid \<Rightarrow> no_diag (do_user_id out ctb uid)
                 | _ \<Rightarrow> Inl Wrong_payload)
              else if t = PKT_COMMENT then
                (case pkt p of Comment rem \<Rightarrow> no_diag (do_comment no_comment out ctb rem)
                 | _ \<Rightarrow> Inl Wrong_payload)
              else if t = PKT_PUBKEY_SUBCERT \<or> t = PKT_PUBLIC_CERT then
                (case pkt p of Public_cert pkc \<Rightarrow> no_diag (do_public_cert out ctb pkc)
                 | _ \<Rightarrow> Inl Wrong_payload)
              else if t = PKT_SECKEY_SUBCERT \<or> t = PKT_SECRET_CERT then
                (case pkt p of Secret_cert skc \<Rightarrow> no_diag (do_secret_cert out ctb skc)
                 | _ \<Rightarrow> Inl Wrong_payload)
              else if t = PKT_SYMKEY_ENC then
                (case pkt p of Symkey_enc enc \<Rightarrow> no_diag (do_symkey_enc out ctb enc)
                 | _ \<Rightarrow> Inl Wrong_payload)
              else if t = PKT_PUBKEY_ENC then
                (case pkt p of Pubkey_enc enc \<Rightarrow> no_diag (do_pubkey_enc out ctb enc)
                 | _ \<Rightarrow> Inl Wrong_payload)
              else if t = PKT_PLAINTEXT then
                (case pkt p of Plaintext pt \<Rightarrow> do_plaintext out ctb pt
                 | _ \<Rightarrow> Inl Wrong_payload)
              else if t = PKT_ENCRYPTED then
                (case pkt p of Encrypted ed \<Rightarrow> no_diag (do_encrypted out ctb ed)
                 | _ \<Rightarrow> Inl Wrong_payload)
              else if t = PKT_COMPRESSED then
                (case pkt p of Compressed cd \<Rightarrow> no_diag (do_compressed out ctb cd)
                 | _ \<Rightarrow> Inl Wrong_payload)
              else if t = PKT_SIGNATURE then
                (case pkt p of Signature sig \<Rightarrow> no_diag (do_signature out ctb sig)
                 | _ \<Rightarrow> Inl Wrong_payload)
              else if t = PKT_ONEPASS_SIG then
                (case pkt p of Onepass_sig ops \<Rightarrow> no_diag (do_onepass_sig out ctb ops)
                 | _ \<Rightarrow> Inl Wrong_payload)
              else Inl Bug_packet_type)"

text \<open>\<^verbatim>\<open>calc_packet_length\<close>: only \<^verbatim>\<open>PKT_PLAINTEXT\<close> is implemented; the header length is
  added in 32 bits.\<close>

definition calc_packet_length :: "PACKET \<Rightarrow> fatal + u32" where
  "calc_packet_length p =
     (if pkt p = Generic_NULL then Inl Assert_failed
      else if pkttype p = PKT_PLAINTEXT then
        (case pkt p of
           Plaintext pt \<Rightarrow>
             let n = calc_plaintext pt in Inr (n + of_int (calc_header_length n))
         | _ \<Rightarrow> Inl Wrong_payload)
      else Inl Bug_packet_type)"

section \<open>Properties\<close>

subsection \<open>Octets of words\<close>

lemma iobuf_put_never:
  "\<forall>i. \<not> sfail out i \<Longrightarrow>
   iobuf_put out c = (0, out\<lparr>sdata := sdata out @ [c], scount := Suc (scount out)\<rparr>)"
  by (simp add: iobuf_put_def)

lemma iobuf_put_sfail: "sfail (snd (iobuf_put out c)) = sfail out"
  by (simp add: iobuf_put_def)

lemma iobuf_put_scount: "scount (snd (iobuf_put out c)) = Suc (scount out)"
  by (simp add: iobuf_put_def)

lemma iobuf_put_fst: "fst (iobuf_put out c) = (if sfail out (scount out) then - 1 else 0)"
  by (simp add: iobuf_put_def)

lemma iobuf_put_sdata:
  "sdata (snd (iobuf_put out c)) = (if sfail out (scount out) then sdata out else sdata out @ [c])"
  by (simp add: iobuf_put_def)

lemmas iobuf_put_simps = iobuf_put_sfail iobuf_put_scount iobuf_put_fst iobuf_put_sdata

lemma ucast_drop_nat: "(ucast (drop_bit k (w :: u32)) :: byte) = of_nat (unat w div 2 ^ k)"
proof -
  have "(ucast (drop_bit k w) :: byte) = of_nat (unat (drop_bit k w))" by simp
  also have "unat (drop_bit k w) = unat w div 2 ^ k"
    by (subst unat_drop_bit_eq) (simp add: drop_bit_eq_div)
  finally show ?thesis .
qed

lemma ff_mask: "(0xff :: u32) = mask 8"
  by (simp add: mask_eq_exp_minus_1)

lemma ucast_and_ff: "(ucast ((x :: u32) AND 0xff) :: byte) = ucast x"
  unfolding ff_mask
  by (rule bit_word_eqI) (auto simp: bit_simps)

lemma two_octet_first:
  assumes "192 \<le> (len :: u32)" and "len < 8384"
  shows "(ucast ((len - 192) div 256 + 192) :: byte) = of_nat ((unat len - 192) div 256 + 192)"
proof -
  have 1: "unat (len - 192) = unat len - 192"
    using assms by (simp add: unat_sub)
  have 2: "unat ((len - 192) div 256) = (unat len - 192) div 256"
    by (simp add: unat_div 1)
  have 3: "unat ((len - 192) div 256 + 192) = (unat len - 192) div 256 + 192"
    using assms 2 by (simp add: unat_word_ariths word_less_nat_alt word_le_nat_alt)
  have "(ucast ((len - 192) div 256 + 192) :: byte) = of_nat (unat ((len - 192) div 256 + 192))"
    by simp
  then show ?thesis by (simp only: 3)
qed

lemma two_octet_second:
  assumes "192 \<le> (len :: u32)"
  shows "(ucast ((len - 192) mod 256) :: byte) = of_nat ((unat len - 192) mod 256)"
proof -
  have 1: "unat (len - 192) = unat len - 192"
    using assms by (simp add: unat_sub)
  have 2: "unat ((len - 192) mod 256) = (unat len - 192) mod 256"
    by (simp add: unat_mod 1)
  have "(ucast ((len - 192) mod 256) :: byte) = of_nat (unat ((len - 192) mod 256))"
    by simp
  then show ?thesis by (simp only: 2)
qed

subsection \<open>The header codec\<close>

text \<open>
  C3.  \<^verbatim>\<open>calc_header_length\<close> is a function of the length alone (it takes no sink and
  returns none): 1 for the length 0, 2 below 256, 3 below 65536 and 5 otherwise; so
  it is 1 at 0, 2 at 255, 3 at 256 and at 65535, and 5 at 65536.
\<close>

theorem calc_header_length_cases:
  "calc_header_length len =
     (if unat len = 0 then 1 else if unat len < 256 then 2
      else if unat len < 65536 then 3 else 5)
   \<and> calc_header_length 0 = 1 \<and> calc_header_length 255 = 2 \<and> calc_header_length 256 = 3
   \<and> calc_header_length 65535 = 3 \<and> calc_header_length 65536 = 5"
  by (simp add: calc_header_length_def word_less_nat_alt unat_eq_0)

text \<open>
  C1.  On a sink that accepts every byte, \<^verbatim>\<open>write_new_header\<close> with a length
  \<open>len > 0\<close> (and no forced header length) succeeds and appends the ctb and then: the
  single octet \<open>len\<close> when \<open>len < 192\<close>; the two octets \<open>(len - 192) div 256 + 192\<close>
  and \<open>(len - 192) mod 256\<close> when \<open>192 \<le> len < 8384\<close>; the octet \<open>0xff\<close> and the four
  octets of \<open>len\<close>, most significant first, when \<open>len \<ge> 8384\<close>.
\<close>

theorem write_new_header_length_encoding:
  assumes ok: "\<forall>i. \<not> sfail out i" and len: "0 < unat len"
  shows "\<exists>out'. write_new_header out ctb len 0 = Inr (0, out') \<and>
           sdata out' = sdata out @ ucast ctb #
             (if unat len < 192 then [of_nat (unat len)]
              else if unat len < 8384
                then [of_nat ((unat len - 192) div 256 + 192), of_nat ((unat len - 192) mod 256)]
              else [0xff, of_nat (unat len div 2 ^ 24), of_nat (unat len div 2 ^ 16),
                    of_nat (unat len div 2 ^ 8), of_nat (unat len)])"
proof -
  have nz: "len \<noteq> 0" using len by (auto simp: unat_eq_0)
  consider (short) "len < 192" | (two) "192 \<le> len" "len < 8384" | (five) "8384 \<le> len"
    by (metis linorder_not_le)
  then show ?thesis
  proof cases
    case short
    then have "unat len < 192" by (simp add: word_less_nat_alt)
    with short nz ok show ?thesis
      by (simp add: write_new_header_def iobuf_put_never)
  next
    case two
    then have "\<not> unat len < 192" "unat len < 8384" "\<not> len < 192"
      by (simp_all add: word_less_nat_alt word_le_nat_alt)
    with two nz ok show ?thesis
      by (simp add: write_new_header_def iobuf_put_never Let_def two_octet_first two_octet_second)
  next
    case five
    then have u: "\<not> unat len < 192" "\<not> unat len < 8384" "\<not> len < 192" "\<not> len < 8384"
      by (simp_all add: word_less_nat_alt word_le_nat_alt)
    have e: "(ucast (len AND 0xff) :: byte) = of_nat (unat len)"
      by (simp only: ucast_and_ff) simp
    from u nz ok show ?thesis
      by (simp add: write_new_header_def iobuf_put_never ucast_and_ff ucast_drop_nat e)
  qed
qed

theorem write_new_header_length_encoding_witness:
  "(\<forall>i. \<not> sfail iobuf_temp i)
   \<and> 0 < unat (191 :: u32) \<and> 0 < unat (192 :: u32) \<and> 0 < unat (8383 :: u32)
   \<and> 0 < unat (8384 :: u32)
   \<and> (\<exists>out'. write_new_header iobuf_temp 203 191 0 = Inr (0, out') \<and>
            sdata out' = [203, 191])
   \<and> (\<exists>out'. write_new_header iobuf_temp 203 192 0 = Inr (0, out') \<and>
            sdata out' = [203, 192, 0])
   \<and> (\<exists>out'. write_new_header iobuf_temp 203 8383 0 = Inr (0, out') \<and>
            sdata out' = [203, 223, 255])
   \<and> (\<exists>out'. write_new_header iobuf_temp 203 8384 0 = Inr (0, out') \<and>
            sdata out' = [203, 255, 0, 0, 32, 192])"
proof -
  have low: "(8384 :: byte) = 192" by simp
  show ?thesis
    using write_new_header_length_encoding [of iobuf_temp 191 203]
      write_new_header_length_encoding [of iobuf_temp 192 203]
      write_new_header_length_encoding [of iobuf_temp 8383 203]
      write_new_header_length_encoding [of iobuf_temp 8384 203]
    by (simp add: iobuf_temp_def low)
qed

text \<open>The selector bits of a ctb, and big-endian octets read back.\<close>

lemma sel_cases: "(x :: u32) AND 3 = 0 \<or> x AND 3 = 1 \<or> x AND 3 = 2 \<or> x AND 3 = 3"
proof -
  define y where "y = x AND 3"
  have "y \<le> 3" unfolding y_def by (rule word_and_le1)
  then have "unat y \<le> 3" by (simp add: word_le_nat_alt)
  then consider "unat y = 0" | "unat y = 1" | "unat y = 2" | "unat y = 3"
    by arith
  then have "y = 0 \<or> y = 1 \<or> y = 2 \<or> y = 3"
  proof cases
    case 1 then show ?thesis by (simp add: unat_eq_0)
  next
    case 2 then have "y = 1" by (subst word_unat_eq_iff) simp
    then show ?thesis by simp
  next
    case 3 then have "y = 2" by (subst word_unat_eq_iff) simp
    then show ?thesis by simp
  next
    case 4 then have "y = 3" by (subst word_unat_eq_iff) simp
    then show ?thesis by simp
  qed
  then show ?thesis by (simp add: y_def)
qed

lemma and2: "(c :: u32) AND 2 = (c AND 3) AND 2"
  by (simp add: and.assoc)

lemma or_sel: "((c :: u32) OR s) AND 3 = (c AND 3) OR (s AND 3)"
  by (simp add: bit.conj_disj_distrib2)

lemma unat_ucast_byte: "unat (ucast (w :: u32) :: byte) = unat w mod 256"
  by (simp add: unsigned_ucast_eq take_bit_eq_mod)

lemma unat_drop: "unat (drop_bit k (w :: u32)) = unat w div 2 ^ k"
  by (subst unat_drop_bit_eq) (simp add: drop_bit_eq_div)

lemma be4:
  assumes "n < 4294967296"
  shows "((n div 16777216 mod 256 * 256 + n div 65536 mod 256) * 256 + n div 256 mod 256) * 256
           + n mod 256 = (n::nat)"
proof -
  define a where "a = n div 256"
  define b where "b = a div 256"
  define c where "c = b div 256"
  have b': "n div 65536 = b" by (simp add: a_def b_def div_mult2_eq)
  have c': "n div 16777216 = c" by (simp add: a_def b_def c_def div_mult2_eq)
  have 1: "a * 256 + n mod 256 = n" by (simp add: a_def)
  have 2: "b * 256 + a mod 256 = a" by (simp add: b_def)
  have 3: "c * 256 + b mod 256 = b" by (simp add: c_def)
  have "c < 256" using assms by (simp add: c' [symmetric])
  then have 4: "c mod 256 = c" by simp
  show ?thesis
    by (simp only: c' b' a_def [symmetric] 4 3 2 1)
qed

lemma be_decode4:
  "be_decode [ucast (drop_bit 24 len), ucast (drop_bit 16 len), ucast (drop_bit 8 len), ucast len]
     = unat (len :: u32)"
proof -
  define n where "n = unat len"
  have lt: "n < 4294967296"
    unfolding n_def using unsigned_less [of len, where ?'a = nat] by simp
  have "be_decode [ucast (drop_bit 24 len), ucast (drop_bit 16 len), ucast (drop_bit 8 len),
                   ucast len]
        = ((n div 16777216 mod 256 * 256 + n div 65536 mod 256) * 256 + n div 256 mod 256) * 256
            + n mod 256"
    unfolding n_def by (simp add: be_decode_def unat_ucast_byte unat_drop)
  also have "\<dots> = n" using lt by (rule be4)
  finally show ?thesis by (simp add: n_def)
qed

lemma be_decode2:
  assumes "unat (len :: u32) < 65536"
  shows "be_decode [ucast (drop_bit 8 len), ucast len] = unat len"
  using assms by (simp add: be_decode_def unat_ucast_byte unat_drop)

lemma be_decode1:
  assumes "unat (len :: u32) < 256"
  shows "be_decode [ucast len] = unat len"
  using assms by (simp add: be_decode_def unat_ucast_byte)

text \<open>
  C2.  On a sink that accepts every byte, for a ctb of the old format (bit 6 clear), a
  length \<open>len > 0\<close> and a forced header length \<open>hdrlen \<noteq> 0\<close>, \<^verbatim>\<open>write_header2\<close>
  succeeds, or-ing into the ctb a selector \<open>sel\<close> that is 0 only when \<open>len < 256\<close>, 1
  only when \<open>len < 65536\<close>, and 2 otherwise; after the ctb it writes 1, 2 or 4 octets
  according to the selector bits of the ctb written, and these octets, read
  big-endian, are exactly \<open>len\<close>: no length is truncated.
\<close>

theorem write_header2_forced_selector:
  assumes ok: "\<forall>i. \<not> sfail out i" and old: "ctb AND 0x40 = 0"
    and len: "0 < unat len" and hdr: "hdrlen \<noteq> 0"
  shows "\<exists>sel bs out'.
           write_header2 out ctb len hdrlen blkmode = Inr (0, out') \<and>
           sdata out' = sdata out @ ucast (ctb OR sel) # bs \<and>
           (sel = 0 \<or> sel = 1 \<or> sel = 2) \<and>
           (sel = 0 \<longrightarrow> unat len < 256) \<and>
           (sel = 1 \<longrightarrow> unat len < 65536) \<and>
           length bs = (if (ctb OR sel) AND 3 = 0 then 1
                        else if (ctb OR sel) AND 3 = 1 then 2 else 4) \<and>
           be_decode bs = unat len"
proof -
  have nz: "len \<noteq> 0" using len by (auto simp: unat_eq_0)
  define sel :: u32 where
    "sel = (if hdrlen = 2 \<and> len < 256 then 0 else if hdrlen = 3 \<and> len < 65536 then 1 else 2)"
  have s3: "sel = 0 \<or> sel = 1 \<or> sel = 2" by (simp add: sel_def)
  have s0: "sel = 0 \<longrightarrow> unat len < 256"
    by (auto simp: sel_def word_less_nat_alt split: if_splits)
  have s1: "sel = 1 \<longrightarrow> unat len < 65536"
    by (auto simp: sel_def word_less_nat_alt split: if_splits)
  define bs where
    "bs = (if (ctb OR sel) AND 2 \<noteq> 0
           then [ucast (drop_bit 24 len), ucast (drop_bit 16 len)] else [])
        @ (if (ctb OR sel) AND 3 \<noteq> 0 then [ucast (drop_bit 8 len) :: byte] else [])
        @ [ucast len]"
  have run: "write_header2 out ctb len hdrlen blkmode =
      Inr (0, out\<lparr>sdata := sdata out @ ucast (ctb OR sel) # bs,
                     scount := scount out + 1 + length bs\<rparr>)"
    using ok old nz hdr
    by (simp add: write_header2_def sel_def bs_def iobuf_put_never Let_def)
  have lenbs: "length bs = (if (ctb OR sel) AND 3 = 0 then 1
                            else if (ctb OR sel) AND 3 = 1 then 2 else 4)"
    using sel_cases [of ctb] s3
    by (auto simp: bs_def and2 [of "ctb OR sel"] or_sel)
  have dec: "be_decode bs = unat len"
    using sel_cases [of ctb] s3 s0 s1
    by (auto simp: bs_def and2 [of "ctb OR sel"] or_sel be_decode4 be_decode2 be_decode1)
  from run lenbs dec s3 s0 s1 show ?thesis by auto
qed

theorem write_header2_forced_selector_witness:
  "(\<forall>i. \<not> sfail iobuf_temp i) \<and> (152 :: u32) AND 0x40 = 0 \<and> 0 < unat (300 :: u32)
   \<and> (2 :: u32) \<noteq> 0
   \<and> (\<exists>sel bs out'.
         write_header2 iobuf_temp 152 300 2 True = Inr (0, out') \<and>
         sdata out' = sdata iobuf_temp @ ucast ((152 :: u32) OR sel) # bs \<and>
         (sel = 0 \<or> sel = 1 \<or> sel = 2) \<and>
         (sel = 0 \<longrightarrow> unat (300 :: u32) < 256) \<and>
         (sel = 1 \<longrightarrow> unat (300 :: u32) < 65536) \<and>
         length bs = (if (152 OR sel) AND 3 = 0 then 1
                      else if (152 OR sel) AND 3 = 1 then 2 else 4) \<and>
         be_decode bs = unat (300 :: u32))
   \<and> write_header2 iobuf_temp 152 300 2 True
       = Inr (0, iobuf_temp\<lparr>sdata := [154, 0, 0, 1, 44], scount := 5\<rparr>)"
proof -
  have ok: "\<forall>i. \<not> sfail iobuf_temp i" by (simp add: iobuf_temp_def)
  have old: "(152 :: u32) AND 0x40 = 0" by simp
  have len: "0 < unat (300 :: u32)" by simp
  have hdr: "(2 :: u32) \<noteq> 0" by simp
  have run: "write_header2 iobuf_temp 152 300 2 True
       = Inr (0, iobuf_temp\<lparr>sdata := [154, 0, 0, 1, 44], scount := 5\<rparr>)"
    by (simp add: write_header2_def iobuf_put_def iobuf_temp_def Let_def)
  note sel = write_header2_forced_selector [OF ok old len hdr, of True]
  show ?thesis
    by (intro conjI ok old len hdr sel run)
qed


subsection \<open>The primitive writers\<close>

lemma ucast16_drop: "(ucast (drop_bit 8 (a :: u16)) :: byte) = of_nat (unat a div 256)"
proof -
  have "(ucast (drop_bit 8 a) :: byte) = of_nat (unat (drop_bit 8 a))" by simp
  also have "unat (drop_bit 8 a) = unat a div 256"
    by (subst unat_drop_bit_eq) (simp add: drop_bit_eq_div)
  finally show ?thesis .
qed

lemma write_16_alt:
  "write_16 out a =
     (fst (iobuf_put (snd (iobuf_put out (ucast (drop_bit 8 a)))) (ucast a)),
      snd (iobuf_put (snd (iobuf_put out (ucast (drop_bit 8 a)))) (ucast a)))"
  by (simp add: write_16_def Let_def case_prod_beta iobuf_put_fst)

lemma write_32_alt:
  "write_32 out v =
     (fst (iobuf_put (snd (iobuf_put (snd (iobuf_put (snd (iobuf_put out
        (ucast (drop_bit 24 v)))) (ucast (drop_bit 16 v)))) (ucast (drop_bit 8 v)))) (ucast v)),
      snd (iobuf_put (snd (iobuf_put (snd (iobuf_put (snd (iobuf_put out
        (ucast (drop_bit 24 v)))) (ucast (drop_bit 16 v)))) (ucast (drop_bit 8 v)))) (ucast v)))"
  by (simp add: write_32_def Let_def case_prod_beta iobuf_put_fst)

text \<open>
  C9, as the code has it.  \<^verbatim>\<open>write_16\<close> and \<^verbatim>\<open>write_32\<close> attempt every one of their 2
  and 4 byte writes, most significant octet first, and return -1 exactly when the
  write of the last octet fails, 0 otherwise; the results of the earlier writes are not
  looked at.  When no write fails the octets appended are the big-endian octets of
  the value.
\<close>

theorem write_16_32_report_last_octet:
  "fst (write_16 out a) = (if sfail out (scount out + 1) then - 1 else 0)
   \<and> scount (snd (write_16 out a)) = scount out + 2
   \<and> fst (write_32 out v) = (if sfail out (scount out + 3) then - 1 else 0)
   \<and> scount (snd (write_32 out v)) = scount out + 4
   \<and> (\<not> sfail out (scount out) \<and> \<not> sfail out (scount out + 1) \<longrightarrow>
        sdata (snd (write_16 out a)) = sdata out @ [of_nat (unat a div 256), of_nat (unat a)])
   \<and> (\<not> sfail out (scount out) \<and> \<not> sfail out (scount out + 1)
        \<and> \<not> sfail out (scount out + 2) \<and> \<not> sfail out (scount out + 3) \<longrightarrow>
        sdata (snd (write_32 out v)) =
          sdata out @ [of_nat (unat v div 2 ^ 24), of_nat (unat v div 2 ^ 16),
                       of_nat (unat v div 2 ^ 8), of_nat (unat v)])"
proof -
  have e: "scount out + 1 = Suc (scount out)" "scount out + 2 = Suc (Suc (scount out))"
    "scount out + 3 = Suc (Suc (Suc (scount out)))"
    "scount out + 4 = Suc (Suc (Suc (Suc (scount out))))"
    by simp_all
  show ?thesis
    unfolding e
    by (simp add: write_16_alt write_32_alt iobuf_put_simps ucast16_drop ucast_drop_nat)
qed

theorem write_16_32_report_last_octet_witness:
  "\<not> sfail iobuf_temp 0 \<and> \<not> sfail iobuf_temp 1 \<and> \<not> sfail iobuf_temp 2 \<and> \<not> sfail iobuf_temp 3
   \<and> sdata (snd (write_16 iobuf_temp 0x1234)) = [0x12, 0x34]
   \<and> fst (write_16 iobuf_temp 0x1234) = 0
   \<and> sdata (snd (write_32 iobuf_temp 0x01020304)) = [1, 2, 3, 4]
   \<and> fst (write_32 iobuf_temp 0x01020304) = 0"
  using write_16_32_report_last_octet [of iobuf_temp "0x1234" "0x01020304"]
  by (simp add: iobuf_temp_def)

text \<open>
  C9, as the specification states it, fails: on a sink whose first byte write fails and whose
  later ones succeed, \<^verbatim>\<open>write_16\<close> and \<^verbatim>\<open>write_32\<close> return 0.
\<close>

theorem write_16_32_first_failure_unreported:
  "sfail \<lparr>sdata = [], sblock = [], scount = 0, sfail = (=) 0\<rparr> 0
   \<and> fst (write_16 \<lparr>sdata = [], sblock = [], scount = 0, sfail = (=) 0\<rparr> 0x1234) = 0
   \<and> fst (write_32 \<lparr>sdata = [], sblock = [], scount = 0, sfail = (=) 0\<rparr> 0x01020304) = 0"
  by (simp add: write_16_alt write_32_alt iobuf_put_simps)


subsection \<open>Signature subpackets\<close>

text \<open>Octets put together with shifts and \<open>OR\<close>, as numbers.\<close>

lemma or_octet:
  fixes x :: u32 and b :: byte
  shows "push_bit 8 x OR ucast b = push_bit 8 x + ucast b"
  by (rule disjunctive_add [symmetric]) (auto simp: bit_simps dest: bit_imp_le_length)

lemma unat_byte_lt: "unat (b :: byte) < 256"
  using unsigned_less [of b, where ?'a = nat] by simp

lemma unat_ucast_up: "unat (ucast (b :: byte) :: u32) = unat b"
  using unat_byte_lt [of b] by (simp add: unsigned_ucast_eq take_bit_eq_mod)

lemma unat_shift_add:
  fixes x :: u32 and b :: byte
  assumes "unat x < 16777216"
  shows "unat (push_bit 8 x OR ucast b) = unat x * 256 + unat b"
proof -
  have "unat (push_bit 8 x + ucast b :: u32) = (unat x * 256 + unat b) mod 4294967296"
    by (simp add: push_bit_eq_mult unat_word_ariths unat_ucast_up mod_simps)
  moreover have "unat x * 256 + unat b < 4294967296"
    using assms unat_byte_lt [of b] by simp
  ultimately show ?thesis by (simp add: or_octet)
qed

lemma area_length_octets: "area_length p = unat (p ! 0) * 256 + unat (p ! 1)"
  using unat_byte_lt [of "p ! 0"]
  by (simp add: area_length_def unat_shift_add unat_ucast_up)

lemma five_octets:
  "unat (push_bit 24 (ucast (a::byte) :: u32) OR push_bit 16 (ucast (b::byte))
         OR push_bit 8 (ucast (c::byte)) OR ucast (d::byte)) = be_decode [a, b, c, d]"
proof -
  define x1 :: u32 where "x1 = push_bit 8 (ucast a) OR ucast b"
  define x2 :: u32 where "x2 = push_bit 8 x1 OR ucast c"
  have e: "push_bit 24 (ucast a :: u32) OR push_bit 16 (ucast b) OR push_bit 8 (ucast c)
             OR ucast d
           = push_bit 8 x2 OR ucast d"
    by (simp add: x1_def x2_def push_bit_or push_bit_push_bit or.assoc)
  have 1: "unat x1 = unat a * 256 + unat b"
    unfolding x1_def using unat_byte_lt [of a] by (simp add: unat_shift_add unat_ucast_up)
  have "unat x1 < 16777216"
    using unat_byte_lt [of a] unat_byte_lt [of b] by (simp add: 1)
  then have 2: "unat x2 = (unat a * 256 + unat b) * 256 + unat c"
    unfolding x2_def by (simp add: unat_shift_add 1)
  have "unat x2 < 16777216"
    using unat_byte_lt [of a] unat_byte_lt [of b] unat_byte_lt [of c] by (simp add: 2)
  then have 3: "unat (push_bit 8 x2 OR ucast d)
           = ((unat a * 256 + unat b) * 256 + unat c) * 256 + unat d"
    by (simp add: unat_shift_add 2)
  show ?thesis
    by (simp only: e 3) (simp add: be_decode_def)
qed


text \<open>What \<^verbatim>\<open>subpkt_append\<close> builds: the first \<open>n0\<close> octets of the old area (\<open>n0\<close> its declared
  length), then the new total in two octets, the length octet, the type and the body.\<close>

lemma take_update4_Suc:
  "Suc (Suc (Suc (Suc n0))) \<le> length D \<Longrightarrow>
   take (Suc (Suc (Suc (Suc n0))))
        (D[n0 := a, Suc n0 := b, Suc (Suc n0) := c, Suc (Suc (Suc n0)) := d])
     = take n0 D @ [a, b, c, d]"
proof (induction n0 arbitrary: D)
  case 0
  then obtain x0 x1 x2 x3 r where "D = x0 # x1 # x2 # x3 # r"
    by (cases D; simp; rename_tac y ys; case_tac ys; simp; rename_tac z zs; case_tac zs; simp;
        rename_tac w ws; case_tac ws; simp)
  then show ?case by simp
next
  case (Suc n0)
  then obtain x D' where D: "D = x # D'" by (cases D) auto
  with Suc.prems have "Suc (Suc (Suc (Suc n0))) \<le> length D'" by simp
  from Suc.IH [OF this] show ?case by (simp add: D)
qed

lemma take_update4:
  assumes "n0 + 4 \<le> length D"
  shows "take (n0 + 4) (D[n0 := a, n0 + 1 := b, n0 + 2 := c, n0 + 3 := d])
           = take n0 D @ [a, b, c, d]"
proof -
  have e: "n0 + 1 = Suc n0" "n0 + 2 = Suc (Suc n0)" "n0 + 3 = Suc (Suc (Suc n0))"
    "n0 + 4 = Suc (Suc (Suc (Suc n0)))"
    by simp_all
  show ?thesis
    using assms unfolding e by (rule take_update4_Suc)
qed

lemma subpkt_append_eq:
  assumes "buflen \<le> length buffer"
    and "area = None \<and> old = [] \<and> n0 = 0
         \<or> (\<exists>p. area = Some p \<and> 2 \<le> length p \<and> n0 = area_length p \<and> n0 \<le> length p
                  \<and> old = take n0 p)"
  shows "subpkt_append area type buffer buflen =
           Inr (old @ [of_nat ((n0 + 2 + buflen) div 256 mod 256), of_nat ((n0 + 2 + buflen) mod 256),
                       of_nat (buflen + 1), of_nat type] @ take buflen buffer)"
proof -
  define n where "n = n0 + 1 + 1 + buflen"
  define D where "D = (case area of Some p \<Rightarrow> m_realloc p (n + 2) | None \<Rightarrow> m_alloc (n + 2))"
  have lenD: "length D = n0 + 4 + buflen"
    using assms(2) by (auto simp: D_def n_def m_alloc_def m_realloc_def)
  have old: "take n0 D = old"
    using assms(2) by (auto simp: D_def n_def m_alloc_def m_realloc_def)
  define D' where "D' = D[n0 := of_nat (n div 256 mod 256), n0 + 1 := of_nat (n mod 256),
                     n0 + 2 := of_nat (buflen + 1), n0 + 3 := of_nat type]"
  have lenD': "length D' = n0 + 4 + buflen" by (simp add: D'_def lenD)
  have t: "take (n0 + 4) D' = old @ [of_nat (n div 256 mod 256), of_nat (n mod 256),
                     of_nat (buflen + 1), of_nat type]"
    unfolding D'_def using take_update4 [of n0 D] lenD old by simp
  have "subpkt_append area type buffer buflen = Inr (memcpy D' (n0 + 4) buffer buflen)"
    using assms by (auto simp: subpkt_append_def Let_def D'_def D_def n_def)
  also have "memcpy D' (n0 + 4) buffer buflen = take (n0 + 4) D' @ take buflen buffer"
    by (simp add: memcpy_def lenD')
  finally show ?thesis
    by (simp add: t n_def add.commute add.left_commute)
qed


text \<open>One turn of the loop of \<^verbatim>\<open>find_subpkt\<close>.\<close>

lemma find_loop_step:
  assumes "buflen \<noteq> 0" and "\<not> length buffer \<le> pos"
    and "subpkt_length buffer (unat (buffer ! pos)) (pos + 1) (buflen - 1)
           = Inr (Some (n, pos', buflen'))"
    and "\<not> buflen' < n" and "\<not> length buffer \<le> pos'" and "n \<noteq> 0"
  shows "find_loop buffer t pos buflen =
           (if unat (buffer ! pos' AND 0x7f) = t then Inr (Found (pos' + 1) (pos' + 1 - pos) (n - 1))
            else find_loop buffer t (pos' + n) (buflen' - n))"
proof -
  have "\<not> n - 1 > buflen'" using assms(4) by simp
  then show ?thesis
    by (subst find_loop.simps)
       (simp only: assms if_False if_True sum.case option.case prod.case)
qed

lemma find_loop_break:
  assumes "buflen \<noteq> 0" and "\<not> length buffer \<le> pos"
    and "subpkt_length buffer (unat (buffer ! pos)) (pos + 1) (buflen - 1) = Inr None
         \<or> (\<exists>n pos' buflen'.
               subpkt_length buffer (unat (buffer ! pos)) (pos + 1) (buflen - 1)
                 = Inr (Some (n, pos', buflen')) \<and> buflen' < n)"
  shows "find_loop buffer t pos buflen = Inr Short_buffer"
  using assms(3)
proof (elim disjE exE conjE)
  assume "subpkt_length buffer (unat (buffer ! pos)) (pos + 1) (buflen - 1) = Inr None"
  then show ?thesis
    by (subst find_loop.simps)
       (simp only: assms(1,2) if_False if_True sum.case option.case prod.case)
next
  fix n pos' buflen'
  assume "subpkt_length buffer (unat (buffer ! pos)) (pos + 1) (buflen - 1)
            = Inr (Some (n, pos', buflen'))" and "buflen' < n"
  then show ?thesis
    by (subst find_loop.simps)
       (simp only: assms(1,2) if_False if_True sum.case option.case prod.case)
qed

lemma subpkt_length_short:
  "n < 192 \<Longrightarrow> subpkt_length buffer n pos buflen = Inr (Some (n, pos, buflen))"
  by (simp add: subpkt_length_def)

lemma subpkt_length_five:
  assumes "4 \<le> buflen" and "pos + 4 \<le> length buffer"
  shows "subpkt_length buffer 255 pos buflen =
           Inr (Some (be_decode [buffer ! pos, buffer ! (pos + 1), buffer ! (pos + 2),
                                 buffer ! (pos + 3)], pos + 4, buflen - 4))"
  using assms by (simp add: subpkt_length_def five_octets)

lemma subpkt_length_five_short:
  "buflen < 4 \<Longrightarrow> subpkt_length buffer 255 pos buflen = Inr None"
  by (simp add: subpkt_length_def)


text \<open>
  C5, as the specification states it, fails: a subpacket whose length octet is the marker
  \<open>0xFF\<close> is decoded (header of 6 octets, body of 1), and it is skipped when another
  type is wanted, the search going on to the next subpacket.
\<close>

theorem find_subpkt_decodes_five_octet_length:
  "find_subpkt (Some [0, 7, 0xFF, 0, 0, 0, 2, 0x10, 0xAA]) 16 = Inr (Found 8 6 1)
   \<and> find_subpkt (Some [0, 10, 0xFF, 0, 0, 0, 2, 0x10, 0xAA, 2, 2, 0xBB]) 2 = Inr (Found 11 2 1)"
  by (simp add: find_subpkt_def area_length_def subpkt_length_def find_loop.simps)

text \<open>
  C5, as the code has it.  At a subpacket whose first octet is below 192 the length is
  that octet; at one whose first octet is \<open>0xFF\<close> the length is the number in the next
  four octets, big-endian.  In both forms a subpacket of length at least 1 that fits into
  the rest of the area is returned when its type (without the top bit) is the wanted
  one, and skipped otherwise, the search going on behind it.  The error
  \<open>Short_buffer\<close>, which is not \<open>Not_found\<close>, is the result when fewer than four octets
  follow the marker or when the length exceeds the rest of the area.  (Nothing is
  said here about a first octet from 192 to 254.)
\<close>

theorem find_loop_entry_lengths:
  "(buflen \<noteq> 0 \<and> pos + 1 < length buffer \<and> unat (buffer ! pos) < 192
      \<and> unat (buffer ! pos) \<noteq> 0 \<and> unat (buffer ! pos) \<le> buflen - 1 \<longrightarrow>
      find_loop buffer t pos buflen =
        (if unat (buffer ! (pos + 1) AND 0x7f) = t
         then Inr (Found (pos + 2) 2 (unat (buffer ! pos) - 1))
         else find_loop buffer t (pos + 1 + unat (buffer ! pos))
                (buflen - 1 - unat (buffer ! pos))))
   \<and> (buflen \<noteq> 0 \<and> pos + 5 < length buffer \<and> buffer ! pos = 0xFF
      \<and> n = be_decode [buffer ! (pos + 1), buffer ! (pos + 2), buffer ! (pos + 3),
                        buffer ! (pos + 4)]
      \<and> n \<noteq> 0 \<and> n + 5 \<le> buflen \<longrightarrow>
      find_loop buffer t pos buflen =
        (if unat (buffer ! (pos + 5) AND 0x7f) = t then Inr (Found (pos + 6) 6 (n - 1))
         else find_loop buffer t (pos + 5 + n) (buflen - 5 - n)))
   \<and> (buflen \<noteq> 0 \<and> pos < length buffer \<and> buffer ! pos = 0xFF \<and> buflen < 5 \<longrightarrow>
      find_loop buffer t pos buflen = Inr Short_buffer)
   \<and> (5 \<le> buflen \<and> pos + 5 \<le> length buffer \<and> buffer ! pos = 0xFF
      \<and> buflen - 5 < be_decode [buffer ! (pos + 1), buffer ! (pos + 2), buffer ! (pos + 3),
                                 buffer ! (pos + 4)] \<longrightarrow>
      find_loop buffer t pos buflen = Inr Short_buffer)
   \<and> (buflen \<noteq> 0 \<and> pos < length buffer \<and> unat (buffer ! pos) < 192
      \<and> buflen - 1 < unat (buffer ! pos) \<longrightarrow>
      find_loop buffer t pos buflen = Inr Short_buffer)
   \<and> Short_buffer \<noteq> Not_found
   \<and> find_subpkt (Some buffer) t =
       (if length buffer < 2 then Inl Overrun
        else find_loop buffer t 2 (unat (buffer ! 0) * 256 + unat (buffer ! 1)))"
proof (intro conjI impI; (elim conjE)?)
  assume a: "buflen \<noteq> 0" "pos + 1 < length buffer" "unat (buffer ! pos) < 192"
    "unat (buffer ! pos) \<noteq> 0" "unat (buffer ! pos) \<le> buflen - 1"
  have "find_loop buffer t pos buflen =
      (if unat (buffer ! (pos + 1) AND 0x7f) = t
       then Inr (Found (pos + 1 + 1) (pos + 1 + 1 - pos) (unat (buffer ! pos) - 1))
       else find_loop buffer t (pos + 1 + unat (buffer ! pos)) (buflen - 1 - unat (buffer ! pos)))"
    using a by (intro find_loop_step subpkt_length_short) simp_all
  then show "find_loop buffer t pos buflen =
        (if unat (buffer ! (pos + 1) AND 0x7f) = t
         then Inr (Found (pos + 2) 2 (unat (buffer ! pos) - 1))
         else find_loop buffer t (pos + 1 + unat (buffer ! pos))
                (buflen - 1 - unat (buffer ! pos)))"
    by (simp cong: if_cong)
next
  assume a: "buflen \<noteq> 0" "pos + 5 < length buffer" "buffer ! pos = 0xFF"
    "n = be_decode [buffer ! (pos + 1), buffer ! (pos + 2), buffer ! (pos + 3),
                    buffer ! (pos + 4)]" "n \<noteq> 0" "n + 5 \<le> buflen"
  have idx: "pos + 1 + 1 = pos + 2" "pos + 1 + 2 = pos + 3" "pos + 1 + 3 = pos + 4"
    by simp_all
  have u: "unat (buffer ! pos) = 255" using a(3) by simp
  have pre: "4 \<le> buflen - 1" "pos + 1 + 4 \<le> length buffer" using a by simp_all
  have s: "subpkt_length buffer (unat (buffer ! pos)) (pos + 1) (buflen - 1)
           = Inr (Some (n, pos + 1 + 4, buflen - 1 - 4))"
    unfolding u a(4) using subpkt_length_five [OF pre] unfolding idx .
  have "find_loop buffer t pos buflen =
      (if unat (buffer ! (pos + 1 + 4) AND 0x7f) = t
       then Inr (Found (pos + 1 + 4 + 1) (pos + 1 + 4 + 1 - pos) (n - 1))
       else find_loop buffer t (pos + 1 + 4 + n) (buflen - 1 - 4 - n))"
    using a by (intro find_loop_step s) simp_all
  moreover have "pos + 1 + 4 = pos + 5" "pos + 1 + 4 + 1 = pos + 6" "pos + 1 + 4 + 1 - pos = 6"
    "pos + 1 + 4 + n = pos + 5 + n" "buflen - 1 - 4 - n = buflen - 5 - n"
    by simp_all
  ultimately show "find_loop buffer t pos buflen =
        (if unat (buffer ! (pos + 5) AND 0x7f) = t then Inr (Found (pos + 6) 6 (n - 1))
         else find_loop buffer t (pos + 5 + n) (buflen - 5 - n))"
    by (simp only:)
next
  assume a: "buflen \<noteq> 0" "pos < length buffer" "buffer ! pos = 0xFF" "buflen < 5"
  then have "subpkt_length buffer (unat (buffer ! pos)) (pos + 1) (buflen - 1) = Inr None"
    using subpkt_length_five_short [of "buflen - 1" buffer "pos + 1"] by simp
  with a show "find_loop buffer t pos buflen = Inr Short_buffer"
    by (intro find_loop_break) simp_all
next
  assume a: "5 \<le> buflen" "pos + 5 \<le> length buffer" "buffer ! pos = 0xFF"
    "buflen - 5 < be_decode [buffer ! (pos + 1), buffer ! (pos + 2), buffer ! (pos + 3),
                             buffer ! (pos + 4)]"
  have idx: "pos + 1 + 1 = pos + 2" "pos + 1 + 2 = pos + 3" "pos + 1 + 3 = pos + 4"
    by simp_all
  have u: "unat (buffer ! pos) = 255" using a(3) by simp
  have pre: "4 \<le> buflen - 1" "pos + 1 + 4 \<le> length buffer" using a by simp_all
  have s: "subpkt_length buffer (unat (buffer ! pos)) (pos + 1) (buflen - 1)
           = Inr (Some (be_decode [buffer ! (pos + 1), buffer ! (pos + 2), buffer ! (pos + 3),
                             buffer ! (pos + 4)], pos + 1 + 4, buflen - 1 - 4))"
    unfolding u using subpkt_length_five [OF pre] unfolding idx .
  have "buflen - 1 - 4 < be_decode [buffer ! (pos + 1), buffer ! (pos + 2), buffer ! (pos + 3),
                             buffer ! (pos + 4)]"
    using a(4) by simp
  with a s show "find_loop buffer t pos buflen = Inr Short_buffer"
    by (intro find_loop_break disjI2 exI conjI) (assumption | simp)+
next
  assume a: "buflen \<noteq> 0" "pos < length buffer" "unat (buffer ! pos) < 192"
    "buflen - 1 < unat (buffer ! pos)"
  have s: "subpkt_length buffer (unat (buffer ! pos)) (pos + 1) (buflen - 1)
           = Inr (Some (unat (buffer ! pos), pos + 1, buflen - 1))"
    using a by (intro subpkt_length_short)
  with a show "find_loop buffer t pos buflen = Inr Short_buffer"
    by (intro find_loop_break disjI2 exI conjI) (assumption | simp)+
next
  show "Short_buffer \<noteq> Not_found" by simp
next
  show "find_subpkt (Some buffer) t =
       (if length buffer < 2 then Inl Overrun
        else find_loop buffer t 2 (unat (buffer ! 0) * 256 + unat (buffer ! 1)))"
    by (simp add: find_subpkt_def area_length_octets)
qed


theorem find_loop_entry_lengths_witness:
  "[0, 10, 0xFF, 0, 0, 0, 2, 0x10, 0xAA, 2, 2, 0xBB :: byte] ! 2 = 0xFF
   \<and> be_decode [0, 0, 0, 2] = 2
   \<and> find_subpkt (Some [0, 10, 0xFF, 0, 0, 0, 2, 0x10, 0xAA, 2, 2, 0xBB]) 2
       = find_loop [0, 10, 0xFF, 0, 0, 0, 2, 0x10, 0xAA, 2, 2, 0xBB] 2 9 3
   \<and> find_loop [0, 10, 0xFF, 0, 0, 0, 2, 0x10, 0xAA, 2, 2, 0xBB] 2 9 3 = Inr (Found 11 2 1)
   \<and> find_subpkt (Some [0, 3, 0xFF, 0, 0]) 3 = Inr Short_buffer"
  using find_loop_entry_lengths [where buffer = "[0, 10, 0xFF, 0, 0, 0, 2, 0x10, 0xAA, 2, 2, 0xBB]"
          and pos = 2 and buflen = 10 and t = 2 and n = 2]
    find_loop_entry_lengths [where buffer = "[0, 10, 0xFF, 0, 0, 0, 2, 0x10, 0xAA, 2, 2, 0xBB]"
          and pos = 9 and buflen = 3 and t = 2 and n = 0]
    find_loop_entry_lengths [where buffer = "[0, 3, 0xFF, 0, 0]"
          and pos = 2 and buflen = 3 and t = 3 and n = 0]
  by (simp add: be_decode_def)

lemma replicate_numeral: "replicate (numeral k) x = x # replicate (pred_numeral k) x"
  by (simp add: numeral_eq_Suc)

lemma find_subpkt_empty:
  "area = None \<or> area = Some [0, 0] \<Longrightarrow> find_subpkt area t = Inr Not_found"
  by (auto simp: find_subpkt_def area_length_def find_loop.simps)

lemma build_sig_subpkt_hashed:
  assumes "find_subpkt (hashed_data sig) type = Inr Not_found"
    and "find_subpkt (unhashed_data sig) type = Inr Not_found"
    and "type = SIGSUBPKT_SIG_CREATED \<or> type = SIGSUBPKT_PRIV_ADD_SIG"
    and "buflen + 1 < 192"
  shows "build_sig_subpkt sig type buffer buflen =
           (case subpkt_append (hashed_data sig) type buffer buflen of
              Inl e \<Rightarrow> Inl e
            | Inr data \<Rightarrow> Inr (sig\<lparr>hashed_data := Some data\<rparr>))"
  using assms by (simp add: build_sig_subpkt_def)

text \<open>
  C4.  On a signature whose two subpacket areas are empty (the null pointer, or an area
  declaring the length 0), \<^verbatim>\<open>build_sig_subpkt\<close> with the creation-time type and a body
  of four octets succeeds and leaves the hashed area with the prefix \<open>1 + 1 + 4 = 6\<close>,
  the length octet 5, the type and the body; \<^verbatim>\<open>find_subpkt\<close> on that area for the
  same type finds the subpacket with 2 header octets and 4 body octets, and the octets
  at the returned position are the body.
\<close>

theorem build_sig_subpkt_creation_time:
  assumes "hashed_data sig = None \<or> hashed_data sig = Some [0, 0]"
    and "unhashed_data sig = None \<or> unhashed_data sig = Some [0, 0]"
  shows "build_sig_subpkt sig SIGSUBPKT_SIG_CREATED [b0, b1, b2, b3] 4
           = Inr (sig\<lparr>hashed_data := Some [0, 6, 5, 2, b0, b1, b2, b3]\<rparr>)
         \<and> be_decode (take 2 [0, 6, 5, 2, b0, b1, b2, b3]) = 1 + 1 + 4
         \<and> find_subpkt (Some [0, 6, 5, 2, b0, b1, b2, b3]) SIGSUBPKT_SIG_CREATED
             = Inr (Found 4 2 4)
         \<and> take 4 (drop 4 [0, 6, 5, 2, b0, b1, b2, b3]) = [b0, b1, b2, b3]"
proof -
  have app: "subpkt_append (hashed_data sig) SIGSUBPKT_SIG_CREATED [b0, b1, b2, b3] 4
               = Inr [0, 6, 5, 2, b0, b1, b2, b3]"
    using assms(1)
    by (subst subpkt_append_eq [where old = "[]" and ?n0.0 = 0])
       (auto simp: area_length_def SIGSUBPKT_SIG_CREATED_def)
  have "build_sig_subpkt sig SIGSUBPKT_SIG_CREATED [b0, b1, b2, b3] 4
           = Inr (sig\<lparr>hashed_data := Some [0, 6, 5, 2, b0, b1, b2, b3]\<rparr>)"
    using assms by (simp add: build_sig_subpkt_hashed find_subpkt_empty app)
  moreover have "find_subpkt (Some [0, 6, 5, 2, b0, b1, b2, b3]) SIGSUBPKT_SIG_CREATED
             = Inr (Found 4 2 4)"
    by (simp add: find_subpkt_def area_length_def subpkt_length_def find_loop.simps
          SIGSUBPKT_SIG_CREATED_def)
  ultimately show ?thesis by (simp add: be_decode_def)
qed

theorem build_sig_subpkt_creation_time_witness:
  "build_sig_subpkt
     \<lparr>sig_version = 4, sig_class = 0, sig_pubkey_algo = 17, sig_digest_algo = 2,
      hashed_data = None, unhashed_data = None, digest_start = (0, 0),
      sig_keyid = (0, 0), sig_timestamp = 0, sig_elg_a = [], sig_elg_b = [],
      sig_dsa_r = [], sig_dsa_s = [], sig_rsa_integer = []\<rparr>
     SIGSUBPKT_SIG_CREATED [1, 2, 3, 4] 4
   = Inr \<lparr>sig_version = 4, sig_class = 0, sig_pubkey_algo = 17, sig_digest_algo = 2,
      hashed_data = Some [0, 6, 5, 2, 1, 2, 3, 4], unhashed_data = None, digest_start = (0, 0),
      sig_keyid = (0, 0), sig_timestamp = 0, sig_elg_a = [], sig_elg_b = [],
      sig_dsa_r = [], sig_dsa_s = [], sig_rsa_integer = []\<rparr>
   \<and> find_subpkt (Some [0, 6, 5, 2, 1, 2, 3, 4]) SIGSUBPKT_SIG_CREATED = Inr (Found 4 2 4)"
  using build_sig_subpkt_creation_time [of
     "\<lparr>sig_version = 4, sig_class = 0, sig_pubkey_algo = 17, sig_digest_algo = 2,
      hashed_data = None, unhashed_data = None, digest_start = (0, 0),
      sig_keyid = (0, 0), sig_timestamp = 0, sig_elg_a = [], sig_elg_b = [],
      sig_dsa_r = [], sig_dsa_s = [], sig_rsa_integer = []\<rparr>" 1 2 3 4]
  by simp

text \<open>
  On a hashed area that already holds subpackets, the code stores the new total at
  \<^verbatim>\<open>data[n0]\<close> and \<^verbatim>\<open>data[n0+1]\<close>, not at \<^verbatim>\<open>data[0]\<close> and \<^verbatim>\<open>data[1]\<close>: of the old area
  only the first \<open>n0\<close> octets are kept, the old prefix among them, and the last two
  octets of the old subpackets are overwritten.
\<close>

lemma build_sig_subpkt_prefix_not_rewritten:
  assumes "hashed_data sig = Some p" and "length p = area_length p + 2"
    and "find_subpkt (Some p) type = Inr Not_found"
    and "find_subpkt (unhashed_data sig) type = Inr Not_found"
    and "type = SIGSUBPKT_SIG_CREATED \<or> type = SIGSUBPKT_PRIV_ADD_SIG"
    and "length buffer + 1 < 192"
  shows "build_sig_subpkt sig type buffer (length buffer) =
           Inr (sig\<lparr>hashed_data := Some
             (take (area_length p) p
              @ [of_nat ((area_length p + 2 + length buffer) div 256 mod 256),
                 of_nat ((area_length p + 2 + length buffer) mod 256),
                 of_nat (length buffer + 1), of_nat type]
              @ buffer)\<rparr>)"
proof -
  have "subpkt_append (Some p) type buffer (length buffer) =
          Inr (take (area_length p) p
              @ [of_nat ((area_length p + 2 + length buffer) div 256 mod 256),
                 of_nat ((area_length p + 2 + length buffer) mod 256),
                 of_nat (length buffer + 1), of_nat type]
              @ take (length buffer) buffer)"
    using assms(2) by (intro subpkt_append_eq) auto
  with assms show ?thesis
    by (simp add: build_sig_subpkt_hashed)
qed

text \<open>
  C6, at a failing input.  A signature whose hashed area holds the creation-time
  subpacket \<open>[1, 2, 3, 4]\<close>, as \<^verbatim>\<open>build_sig_subpkt\<close> left it, gets a second hashed
  subpacket, of the type \<^verbatim>\<open>SIGSUBPKT_PRIV_ADD_SIG\<close> with the body \<open>[9]\<close>.  The area then
  still declares 6 octets of subpackets although 9 follow the prefix, the last two
  octets \<open>3, 4\<close> of the first subpacket are overwritten with the new total \<open>0, 9\<close>, and
  \<^verbatim>\<open>find_subpkt\<close> does not find the subpacket just added.
\<close>

theorem build_sig_subpkt_second_hashed_subpkt:
  "build_sig_subpkt
     \<lparr>sig_version = 4, sig_class = 0, sig_pubkey_algo = 17, sig_digest_algo = 2,
      hashed_data = Some [0, 6, 5, 2, 1, 2, 3, 4], unhashed_data = None, digest_start = (0, 0),
      sig_keyid = (0, 0), sig_timestamp = 0, sig_elg_a = [], sig_elg_b = [],
      sig_dsa_r = [], sig_dsa_s = [], sig_rsa_integer = []\<rparr>
     SIGSUBPKT_PRIV_ADD_SIG [9] 1
   = Inr \<lparr>sig_version = 4, sig_class = 0, sig_pubkey_algo = 17, sig_digest_algo = 2,
      hashed_data = Some [0, 6, 5, 2, 1, 2, 0, 9, 2, 101, 9], unhashed_data = None,
      digest_start = (0, 0),
      sig_keyid = (0, 0), sig_timestamp = 0, sig_elg_a = [], sig_elg_b = [],
      sig_dsa_r = [], sig_dsa_s = [], sig_rsa_integer = []\<rparr>
   \<and> area_length [0, 6, 5, 2, 1, 2, 0, 9, 2, 101, 9] = 6
   \<and> length (drop 2 [0, 6, 5, 2, 1, 2, 0, 9, 2, 101, 9 :: byte]) = 9
   \<and> find_subpkt (Some [0, 6, 5, 2, 1, 2, 0, 9, 2, 101, 9]) SIGSUBPKT_PRIV_ADD_SIG
       = Inr Not_found"
  by (simp add: build_sig_subpkt_def find_subpkt_def area_length_def subpkt_length_def
        find_loop.simps subpkt_append_def m_realloc_def memcpy_def replicate_numeral
        SIGSUBPKT_SIG_CREATED_def SIGSUBPKT_PRIV_ADD_SIG_def Let_def)

subsection \<open>The packet encoders\<close>

lemma write_staged_rc:
  "write_staged out ctb a h = Inr (rc, out') \<Longrightarrow> rc \<noteq> G10ERR_PUBKEY_ALGO"
  by (auto simp: write_staged_def G10ERR_PUBKEY_ALGO_def G10ERR_WRITE_FILE_def
           split: sum.splits prod.splits if_splits)

lemma do_public_cert_shape:
  "(\<exists>a. do_public_cert out ctb pkc = write_staged out ctb a (ucast (pkc_hdrbytes pkc)))
   \<or> do_public_cert out ctb pkc = Inr (G10ERR_PUBKEY_ALGO, out)"
  by (simp add: do_public_cert_def Let_def) blast

lemma do_secret_cert_shape:
  "(\<exists>a. do_secret_cert out ctb skc = write_staged out ctb a (ucast (skc_hdrbytes skc)))
   \<or> do_secret_cert out ctb skc = Inr (G10ERR_PUBKEY_ALGO, out)"
  by (simp add: do_secret_cert_def Let_def) blast

lemma do_pubkey_enc_shape:
  "(\<exists>a. do_pubkey_enc out ctb enc = write_staged out ctb a 0)
   \<or> do_pubkey_enc out ctb enc = Inr (G10ERR_PUBKEY_ALGO, out)"
  by (simp add: do_pubkey_enc_def Let_def) blast

lemma do_signature_shape:
  "(\<exists>a. do_signature out ctb sig = write_staged out ctb a 0)
   \<or> do_signature out ctb sig = Inr (G10ERR_PUBKEY_ALGO, out)
   \<or> do_signature out ctb sig = Inl Overrun"
proof -
  have w: "write_area a r = Inl Overrun \<or> (\<exists>a'. write_area a r = Inr a')" for a r
    by (simp add: write_area_def Let_def split: option.splits)
  define stage where "stage = (\<lambda>a. if sig_version sig \<ge> 4 then
                 (case write_area a (hashed_data sig) of
                    Inl e \<Rightarrow> Inl e
                  | Inr a \<Rightarrow> write_area a (unhashed_data sig))
               else Inr a)"
  define tail where "tail = (\<lambda>a.
             let a = snd (iobuf_put a (fst (digest_start sig)));
                 a = snd (iobuf_put a (snd (digest_start sig)))
             in if is_ELGAMAL (sig_pubkey_algo sig) then
                  (let a = snd (mpi_write a (sig_elg_a sig));
                       a = snd (mpi_write a (sig_elg_b sig))
                   in write_staged out ctb a 0)
                else if sig_pubkey_algo sig = PUBKEY_ALGO_DSA then
                  (let a = snd (mpi_write a (sig_dsa_r sig));
                       a = snd (mpi_write a (sig_dsa_s sig))
                   in write_staged out ctb a 0)
                else if is_RSA (sig_pubkey_algo sig) then
                  (let a = snd (mpi_write a (sig_rsa_integer sig))
                   in write_staged out ctb a 0)
                else Inr (G10ERR_PUBKEY_ALGO, out))"
  have st: "stage a = Inl Overrun \<or> (\<exists>a'. stage a = Inr a')" for a
    using w [of a "hashed_data sig"] w [of _ "unhashed_data sig"]
    by (auto simp: stage_def split: sum.splits)
  have tl: "(\<exists>a'. tail a = write_staged out ctb a' 0) \<or> tail a = Inr (G10ERR_PUBKEY_ALGO, out)"
    for a
    by (simp add: tail_def Let_def) blast
  have "\<exists>A. do_signature out ctb sig = (case stage A of Inl e \<Rightarrow> Inl e | Inr a \<Rightarrow> tail a)"
    unfolding do_signature_def stage_def tail_def Let_def by (rule exI) (rule refl)
  then obtain A where eq: "do_signature out ctb sig
      = (case stage A of Inl e \<Rightarrow> Inl e | Inr a \<Rightarrow> tail a)" ..
  from st [of A] show ?thesis
  proof
    assume "stage A = Inl Overrun"
    then show ?thesis by (simp add: eq)
  next
    assume "\<exists>a'. stage A = Inr a'"
    then obtain a' where "stage A = Inr a'" ..
    then have "do_signature out ctb sig = tail a'" by (simp add: eq)
    with tl [of a'] show ?thesis by auto
  qed
qed

text \<open>
  C7.  Each encoder that stages its packet (\<^verbatim>\<open>do_public_cert\<close>, \<^verbatim>\<open>do_secret_cert\<close>,
  \<^verbatim>\<open>do_pubkey_enc\<close>, \<^verbatim>\<open>do_signature\<close>) leaves the real sink as it was when it returns
  \<^verbatim>\<open>G10ERR_PUBKEY_ALGO\<close>: no header and no body octet has been written.  The real sink
  is written only by the final step, the header for the complete staged buffer followed
  by the copy of that buffer; otherwise the encoder returns \<^verbatim>\<open>G10ERR_PUBKEY_ALGO\<close> with
  the sink untouched (or, for a signature whose subpacket area is shorter than it
  declares, reads outside the area before anything is written).
\<close>

theorem unknown_algorithm_writes_nothing:
  "(do_public_cert out ctb pkc = Inr (G10ERR_PUBKEY_ALGO, out') \<longrightarrow> out' = out)
   \<and> (do_secret_cert out ctb skc = Inr (G10ERR_PUBKEY_ALGO, out') \<longrightarrow> out' = out)
   \<and> (do_pubkey_enc out ctb enc = Inr (G10ERR_PUBKEY_ALGO, out') \<longrightarrow> out' = out)
   \<and> (do_signature out ctb sig = Inr (G10ERR_PUBKEY_ALGO, out') \<longrightarrow> out' = out)
   \<and> ((\<exists>a. do_public_cert out ctb pkc = write_staged out ctb a (ucast (pkc_hdrbytes pkc)))
        \<or> do_public_cert out ctb pkc = Inr (G10ERR_PUBKEY_ALGO, out))
   \<and> ((\<exists>a. do_secret_cert out ctb skc = write_staged out ctb a (ucast (skc_hdrbytes skc)))
        \<or> do_secret_cert out ctb skc = Inr (G10ERR_PUBKEY_ALGO, out))
   \<and> ((\<exists>a. do_pubkey_enc out ctb enc = write_staged out ctb a 0)
        \<or> do_pubkey_enc out ctb enc = Inr (G10ERR_PUBKEY_ALGO, out))
   \<and> ((\<exists>a. do_signature out ctb sig = write_staged out ctb a 0)
        \<or> do_signature out ctb sig = Inr (G10ERR_PUBKEY_ALGO, out)
        \<or> do_signature out ctb sig = Inl Overrun)"
proof (intro conjI impI)
  assume "do_public_cert out ctb pkc = Inr (G10ERR_PUBKEY_ALGO, out')"
  with do_public_cert_shape [of out ctb pkc] show "out' = out"
    by (auto dest: write_staged_rc [OF sym])
next
  assume "do_secret_cert out ctb skc = Inr (G10ERR_PUBKEY_ALGO, out')"
  with do_secret_cert_shape [of out ctb skc] show "out' = out"
    by (auto dest: write_staged_rc [OF sym])
next
  assume "do_pubkey_enc out ctb enc = Inr (G10ERR_PUBKEY_ALGO, out')"
  with do_pubkey_enc_shape [of out ctb enc] show "out' = out"
    by (auto dest: write_staged_rc [OF sym])
next
  assume "do_signature out ctb sig = Inr (G10ERR_PUBKEY_ALGO, out')"
  with do_signature_shape [of out ctb sig] show "out' = out"
    by (auto dest: write_staged_rc [OF sym])
qed (rule do_public_cert_shape do_secret_cert_shape do_pubkey_enc_shape do_signature_shape)+

theorem unknown_algorithm_writes_nothing_witness:
  "do_public_cert iobuf_temp 152
      \<lparr>pkc_timestamp = 0, pkc_valid_days = 0, pkc_hdrbytes = 0, pkc_version = 3,
       pkc_pubkey_algo = 99, pkc_elg_p = [], pkc_elg_g = [], pkc_elg_y = [],
       pkc_dsa_p = [], pkc_dsa_q = [], pkc_dsa_g = [], pkc_dsa_y = [],
       pkc_rsa_n = [], pkc_rsa_e = []\<rparr>
     = Inr (G10ERR_PUBKEY_ALGO, iobuf_temp)
   \<and> do_secret_cert iobuf_temp 152
      \<lparr>skc_timestamp = 0, skc_valid_days = 0, skc_hdrbytes = 0, skc_version = 3,
       skc_pubkey_algo = 99, skc_is_protected = False, skc_protect_algo = 0,
       skc_protect_s2k = \<lparr>s2k_mode = 0, s2k_hash_algo = 0, s2k_salt = [], s2k_count = 0\<rparr>,
       skc_protect_iv = [], skc_csum = 0,
       skc_elg_p = [], skc_elg_g = [], skc_elg_y = [], skc_elg_x = [],
       skc_dsa_p = [], skc_dsa_q = [], skc_dsa_g = [], skc_dsa_y = [], skc_dsa_x = [],
       skc_rsa_n = [], skc_rsa_e = [], skc_rsa_d = [], skc_rsa_p = [], skc_rsa_q = [],
       skc_rsa_u = []\<rparr>
     = Inr (G10ERR_PUBKEY_ALGO, iobuf_temp)
   \<and> do_pubkey_enc iobuf_temp 152
      \<lparr>pke_keyid = (0, 0), pke_pubkey_algo = 17, pke_elg_a = [], pke_elg_b = [],
       pke_rsa_integer = []\<rparr>
     = Inr (G10ERR_PUBKEY_ALGO, iobuf_temp)
   \<and> do_signature iobuf_temp 152
      \<lparr>sig_version = 4, sig_class = 0, sig_pubkey_algo = 99, sig_digest_algo = 2,
       hashed_data = Some [0, 6, 5, 2, 1, 2, 3, 4], unhashed_data = None,
       digest_start = (0, 0), sig_keyid = (0, 0), sig_timestamp = 0, sig_elg_a = [],
       sig_elg_b = [], sig_dsa_r = [], sig_dsa_s = [], sig_rsa_integer = []\<rparr>
     = Inr (G10ERR_PUBKEY_ALGO, iobuf_temp)"
  using unknown_algorithm_writes_nothing [where out = iobuf_temp and out' = iobuf_temp
      and ctb = 152
      and pkc = "\<lparr>pkc_timestamp = 0, pkc_valid_days = 0, pkc_hdrbytes = 0, pkc_version = 3,
       pkc_pubkey_algo = 99, pkc_elg_p = [], pkc_elg_g = [], pkc_elg_y = [],
       pkc_dsa_p = [], pkc_dsa_q = [], pkc_dsa_g = [], pkc_dsa_y = [],
       pkc_rsa_n = [], pkc_rsa_e = []\<rparr>"
      and skc = "\<lparr>skc_timestamp = 0, skc_valid_days = 0, skc_hdrbytes = 0, skc_version = 3,
       skc_pubkey_algo = 99, skc_is_protected = False, skc_protect_algo = 0,
       skc_protect_s2k = \<lparr>s2k_mode = 0, s2k_hash_algo = 0, s2k_salt = [], s2k_count = 0\<rparr>,
       skc_protect_iv = [], skc_csum = 0,
       skc_elg_p = [], skc_elg_g = [], skc_elg_y = [], skc_elg_x = [],
       skc_dsa_p = [], skc_dsa_q = [], skc_dsa_g = [], skc_dsa_y = [], skc_dsa_x = [],
       skc_rsa_n = [], skc_rsa_e = [], skc_rsa_d = [], skc_rsa_p = [], skc_rsa_q = [],
       skc_rsa_u = []\<rparr>"
      and enc = "\<lparr>pke_keyid = (0, 0), pke_pubkey_algo = 17, pke_elg_a = [], pke_elg_b = [],
       pke_rsa_integer = []\<rparr>"
      and sig = "\<lparr>sig_version = 4, sig_class = 0, sig_pubkey_algo = 99, sig_digest_algo = 2,
       hashed_data = Some [0, 6, 5, 2, 1, 2, 3, 4], unhashed_data = None,
       digest_start = (0, 0), sig_keyid = (0, 0), sig_timestamp = 0, sig_elg_a = [],
       sig_elg_b = [], sig_dsa_r = [], sig_dsa_s = [], sig_rsa_integer = []\<rparr>"]
  by (simp add: do_public_cert_def do_secret_cert_def do_pubkey_enc_def do_signature_def
        write_area_def area_length_def Let_def is_ELGAMAL_def is_RSA_def PUBKEY_ALGO_DSA_def)


text \<open>Literal data on a sink that accepts every byte.\<close>

lemma iobuf_write_never:
  "\<forall>i. \<not> sfail out i \<Longrightarrow>
   iobuf_write out bs = (0, out\<lparr>sdata := sdata out @ bs, scount := scount out + length bs\<rparr>)"
  by (induction bs arbitrary: out) (simp_all add: iobuf_put_never)

lemma put_name_never:
  assumes "\<forall>i. \<not> sfail out i" and "k \<le> length name"
  shows "foldl (\<lambda>out i. snd (iobuf_put out (name ! i))) out [0..<k]
           = out\<lparr>sdata := sdata out @ take k name, scount := scount out + k\<rparr>"
  using assms(2)
proof (induction k)
  case 0
  then show ?case by simp
next
  case (Suc k)
  then show ?case
    using assms(1) by (simp add: iobuf_put_never take_Suc_conv_app_nth)
qed

lemma plaintext_loop_never:
  "\<forall>i. \<not> sfail out i \<Longrightarrow>
   plaintext_loop out src n rc =
     (rc, out\<lparr>sdata := sdata out @ src, scount := scount out + length src\<rparr>,
      n + of_nat (length src))"
proof (induction out src n rc rule: plaintext_loop.induct)
  case (1 out src n rc)
  show ?case
  proof (cases "src = []")
    case True
    then show ?thesis
      by (subst plaintext_loop.simps) (simp add: iobuf_read_def)
  next
    case False
    let ?buf = "take 1000 src"
    let ?out' = "out\<lparr>sdata := sdata out @ ?buf, scount := scount out + length ?buf\<rparr>"
    have w: "iobuf_write out ?buf = (0, ?out')"
      using "1.prems" by (rule iobuf_write_never)
    have r: "iobuf_read src 1000 = Some (?buf, drop 1000 src)"
      using False by (simp add: iobuf_read_def)
    have ok': "\<forall>i. \<not> sfail ?out' i" using "1.prems" by simp
    have ih: "plaintext_loop ?out' (drop 1000 src) (n + of_nat (length ?buf)) rc =
        (rc, ?out'\<lparr>sdata := sdata ?out' @ drop 1000 src,
                    scount := scount ?out' + length (drop 1000 src)\<rparr>,
         n + of_nat (length ?buf) + of_nat (length (drop 1000 src)))"
      using "1.IH" [OF r refl w [symmetric] _ ok'] by simp
    have l: "length ?buf + length (drop 1000 src) = length src"
      by (metis append_take_drop_id length_append)
    have "(of_nat (length ?buf) + of_nat (length (drop 1000 src)) :: u32) = of_nat (length src)"
      by (simp only: l flip: of_nat_add)
    then have n: "n + of_nat (length ?buf) + of_nat (length (drop 1000 src))
                    = n + (of_nat (length src) :: u32)"
      by (simp add: add.assoc)
    have "plaintext_loop out src n rc
            = plaintext_loop ?out' (drop 1000 src) (n + of_nat (length ?buf)) rc"
      by (subst plaintext_loop.simps) (simp add: r w)
    also note ih
    finally show ?thesis
      using l by (simp only: n) (simp add: add.assoc)
  qed
qed


lemma write_32_never:
  "\<forall>i. \<not> sfail out i \<Longrightarrow>
   write_32 out v = (0, out\<lparr>sdata := sdata out @ [ucast (drop_bit 24 v), ucast (drop_bit 16 v),
                                                  ucast (drop_bit 8 v), ucast v],
                          scount := scount out + 4\<rparr>)"
  by (simp add: write_32_def iobuf_put_never Let_def)

lemma write_header_old_never:
  assumes ok: "\<forall>i. \<not> sfail out i" and old: "ctb AND 0x40 = 0"
  shows "\<exists>hdr. write_header out ctb len =
           Inr (0, out\<lparr>sdata := sdata out @ hdr,
                          sblock := (if len = 0 then sblock out @ [(length (sdata out) + 1, 8196)]
                                     else sblock out),
                          scount := scount out + length hdr\<rparr>)
         \<and> hdr \<noteq> []
         \<and> (ctb AND 3 = 0 \<longrightarrow> int (length hdr) = calc_header_length len)"
proof (cases "len = 0")
  case True
  then have "write_header out ctb len =
           Inr (0, out\<lparr>sdata := sdata out @ [ucast (ctb OR 3)],
                          sblock := sblock out @ [(length (sdata out) + 1, 8196)],
                          scount := scount out + length [ucast (ctb OR 3) :: byte]\<rparr>)"
    using ok old
    by (simp add: write_header_def write_header2_def iobuf_put_never iobuf_set_block_mode_def)
  with True show ?thesis
    by (intro exI [of _ "[ucast (ctb OR 3)]"]) (simp add: calc_header_length_def)
next
  case False
  define sel :: u32 where
    "sel = (if len < 256 then 0 else if len < 65536 then 1 else 2)"
  have s3: "sel = 0 \<or> sel = 1 \<or> sel = 2" by (simp add: sel_def)
  define bs where
    "bs = (if (ctb OR sel) AND 2 \<noteq> 0
           then [ucast (drop_bit 24 len), ucast (drop_bit 16 len)] else [])
        @ (if (ctb OR sel) AND 3 \<noteq> 0 then [ucast (drop_bit 8 len) :: byte] else [])
        @ [ucast len]"
  have run: "write_header out ctb len =
      Inr (0, out\<lparr>sdata := sdata out @ ucast (ctb OR sel) # bs,
                     scount := scount out + length (ucast (ctb OR sel) # bs)\<rparr>)"
    using ok old False
    by (simp add: write_header_def write_header2_def sel_def bs_def iobuf_put_never Let_def)
  have "ctb AND 3 = 0 \<longrightarrow> int (length (ucast (ctb OR sel) # bs)) = calc_header_length len"
  proof
    assume z: "ctb AND 3 = 0"
    have a3: "(ctb OR sel) AND 3 = sel" using s3 z by (auto simp: or_sel)
    have a2: "(ctb OR sel) AND 2 = sel AND 2" using and2 [of "ctb OR sel"] a3 by simp
    have "length bs = (if sel = 0 then 1 else if sel = 1 then 2 else 4)"
      using s3 by (auto simp: bs_def a3 a2)
    then show "int (length (ucast (ctb OR sel) # bs)) = calc_header_length len"
      using False by (simp add: calc_header_length_def sel_def)
  qed
  with run False show ?thesis
    by (intro exI [of _ "ucast (ctb OR sel) # bs"]) simp
qed

lemma do_plaintext_never:
  assumes ok: "\<forall>i. \<not> sfail out i" and old: "ctb AND 0x40 = 0"
    and name: "pt_namelen pt \<le> int (length (pt_name pt))"
  shows "\<exists>hdr out'. do_plaintext out ctb pt =
           Inr (0, out',
                if pt_len pt \<noteq> 0 \<and> of_nat (length (pt_buf pt)) \<noteq> pt_len pt
                then [Length_mismatch (of_nat (length (pt_buf pt))) (pt_len pt)] else [])
         \<and> sdata out' = sdata out @ hdr @ [ucast (pt_mode pt), of_int (pt_namelen pt)]
                           @ take (nat (pt_namelen pt)) (pt_name pt)
                           @ [ucast (drop_bit 24 (pt_timestamp pt)),
                              ucast (drop_bit 16 (pt_timestamp pt)),
                              ucast (drop_bit 8 (pt_timestamp pt)), ucast (pt_timestamp pt)]
                           @ pt_buf pt
         \<and> sblock out' = sblock out
                  @ (if calc_plaintext pt = 0 then [(length (sdata out) + 1, 8196)] else [])
                  @ (if pt_len pt = 0 then [(length (sdata out'), 0)] else [])
         \<and> hdr \<noteq> []
         \<and> (ctb AND 3 = 0 \<longrightarrow> int (length hdr) = calc_header_length (calc_plaintext pt))"
proof -
  obtain hdr where wh: "write_header out ctb (calc_plaintext pt) =
           Inr (0, out\<lparr>sdata := sdata out @ hdr,
                          sblock := (if calc_plaintext pt = 0
                                     then sblock out @ [(length (sdata out) + 1, 8196)]
                                     else sblock out),
                          scount := scount out + length hdr\<rparr>)"
    and hdr: "hdr \<noteq> []"
      "ctb AND 3 = 0 \<longrightarrow> int (length hdr) = calc_header_length (calc_plaintext pt)"
    using write_header_old_never [OF ok old, of "calc_plaintext pt"] by blast
  have k: "nat (pt_namelen pt) \<le> length (pt_name pt)" "\<not> int (length (pt_name pt)) < pt_namelen pt"
    using name by simp_all
  show ?thesis
    using ok hdr k
    by (intro exI [of _ hdr])
       (simp add: do_plaintext_def wh Let_def iobuf_put_never put_name_never write_32_never
             plaintext_loop_never iobuf_set_block_mode_def)
qed


lemma of_nat_eq_u32: "((of_nat n :: u32) = w) = (n mod 4294967296 = unat w)"
  by (simp add: word_unat_eq_iff unat_of_nat)

lemma build_packet_plaintext:
  "pkttype p = PKT_PLAINTEXT \<Longrightarrow> pkt p = Plaintext pt \<Longrightarrow>
   build_packet no_comment out p = do_plaintext out 0xAC pt"
  by (simp add: build_packet_def Let_def PKT_PLAINTEXT_def PKT_OLD_COMMENT_def PKT_COMMENT_def
        PKT_USER_ID_def PKT_PUBKEY_SUBCERT_def PKT_PUBLIC_CERT_def PKT_SECKEY_SUBCERT_def
        PKT_SECRET_CERT_def PKT_SYMKEY_ENC_def PKT_PUBKEY_ENC_def)

text \<open>On every sink and for every ctb: when the declared length is 0 and the encoder
  returns, nothing has been reported and the last thing done to the sink is
  \<^verbatim>\<open>iobuf_set_block_mode(out, 0)\<close>.\<close>

lemma do_plaintext_end_marker:
  assumes "pt_len pt = 0" and "do_plaintext out ctb pt = Inr (rc, out', d)"
  shows "d = [] \<and> sblock out' \<noteq> [] \<and> last (sblock out') = (length (sdata out'), 0)"
  using assms
  by (auto simp: do_plaintext_def Let_def iobuf_set_block_mode_def
           split: sum.splits prod.splits if_splits)

text \<open>
  C8, as the code has it.  On a sink that accepts every byte, with the ctb of an old
  format packet and a name of \<^verbatim>\<open>namelen\<close> octets at hand, \<^verbatim>\<open>do_plaintext\<close> returns 0 and
  has written the whole body.  For a declared length \<open>L \<noteq> 0\<close> it reports the length
  mismatch exactly when the number of body octets differs from \<open>L\<close> modulo \<open>2 ^ 32\<close>
  (the counter \<^verbatim>\<open>n\<close> is a \<^verbatim>\<open>u32\<close>): it reports nothing for exactly \<open>L\<close> octets and reports
  every other number below \<open>2 ^ 32\<close>.  For the declared length 0 it reports nothing
  and, after the body, calls \<^verbatim>\<open>iobuf_set_block_mode(out, 0)\<close>, whatever the number of
  octets copied.
\<close>

theorem do_plaintext_length_mismatch:
  assumes ok: "\<forall>i. \<not> sfail out i" and old: "ctb AND 0x40 = 0"
    and name: "pt_namelen pt \<le> int (length (pt_name pt))"
  shows "\<exists>out' d pre.
           do_plaintext out ctb pt = Inr (0, out', d)
           \<and> sdata out' = sdata out @ pre @ pt_buf pt
           \<and> (pt_len pt \<noteq> 0 \<and> length (pt_buf pt) mod 2 ^ 32 \<noteq> unat (pt_len pt) \<longrightarrow>
                d = [Length_mismatch (of_nat (length (pt_buf pt))) (pt_len pt)])
           \<and> (pt_len pt \<noteq> 0 \<and> length (pt_buf pt) mod 2 ^ 32 = unat (pt_len pt) \<longrightarrow> d = [])
           \<and> (pt_len pt \<noteq> 0 \<and> length (pt_buf pt) = unat (pt_len pt) \<longrightarrow> d = [])
           \<and> (pt_len pt = 0 \<longrightarrow>
                d = [] \<and> sblock out' = sblock out @ [(length (sdata out) + 1, 8196),
                                                     (length (sdata out'), 0)])"
proof -
  from do_plaintext_never [OF ok old name] obtain hdr out' where
    run: "do_plaintext out ctb pt =
           Inr (0, out',
                if pt_len pt \<noteq> 0 \<and> of_nat (length (pt_buf pt)) \<noteq> pt_len pt
                then [Length_mismatch (of_nat (length (pt_buf pt))) (pt_len pt)] else [])"
    and data: "sdata out' = sdata out @ hdr @ [ucast (pt_mode pt), of_int (pt_namelen pt)]
                           @ take (nat (pt_namelen pt)) (pt_name pt)
                           @ [ucast (drop_bit 24 (pt_timestamp pt)),
                              ucast (drop_bit 16 (pt_timestamp pt)),
                              ucast (drop_bit 8 (pt_timestamp pt)), ucast (pt_timestamp pt)]
                           @ pt_buf pt"
    and block: "sblock out' = sblock out
                  @ (if calc_plaintext pt = 0 then [(length (sdata out) + 1, 8196)] else [])
                  @ (if pt_len pt = 0 then [(length (sdata out'), 0)] else [])"
    by blast
  have lt: "unat (pt_len pt) < 4294967296"
    using unsigned_less [of "pt_len pt", where ?'a = nat] by simp
  have "sdata out' = sdata out @ (hdr @ [ucast (pt_mode pt), of_int (pt_namelen pt)]
                           @ take (nat (pt_namelen pt)) (pt_name pt)
                           @ [ucast (drop_bit 24 (pt_timestamp pt)),
                              ucast (drop_bit 16 (pt_timestamp pt)),
                              ucast (drop_bit 8 (pt_timestamp pt)), ucast (pt_timestamp pt)])
                           @ pt_buf pt"
    by (simp add: data)
  moreover have "pt_len pt = 0 \<longrightarrow> calc_plaintext pt = 0"
    by (simp add: calc_plaintext_def)
  ultimately show ?thesis
    using run block lt
    by (intro exI conjI) (assumption | simp add: of_nat_eq_u32)+
qed

theorem do_plaintext_length_mismatch_witness:
  "(\<forall>i. \<not> sfail iobuf_temp i) \<and> (0xAC :: u32) AND 0x40 = 0
   \<and> (1 :: int) \<le> int (length [0x61 :: byte])
   \<and> (3 :: u32) \<noteq> 0 \<and> length [7, 8 :: byte] mod 2 ^ 32 \<noteq> unat (3 :: u32)
   \<and> (\<exists>out' pre. do_plaintext iobuf_temp 0xAC
        \<lparr>pt_len = 3, pt_buf = [7, 8], pt_mode = 0x62, pt_timestamp = 0, pt_namelen = 1,
         pt_name = [0x61]\<rparr> = Inr (0, out', [Length_mismatch 2 3])
        \<and> sdata out' = pre @ [7, 8])"
proof -
  have ok: "\<forall>i. \<not> sfail iobuf_temp i" by (simp add: iobuf_temp_def)
  have old: "(0xAC :: u32) AND 0x40 = 0" by simp
  have e: "sdata iobuf_temp = []" by (simp add: iobuf_temp_def)
  from do_plaintext_length_mismatch [OF ok old, of
        "\<lparr>pt_len = 3, pt_buf = [7, 8], pt_mode = 0x62, pt_timestamp = 0, pt_namelen = 1,
         pt_name = [0x61]\<rparr>"]
  have "\<exists>out' pre. do_plaintext iobuf_temp 0xAC
        \<lparr>pt_len = 3, pt_buf = [7, 8], pt_mode = 0x62, pt_timestamp = 0, pt_namelen = 1,
         pt_name = [0x61]\<rparr> = Inr (0, out', [Length_mismatch 2 3])
        \<and> sdata out' = pre @ [7, 8]"
    by (simp add: e)
  with ok old show ?thesis by simp
qed

text \<open>
  C8, as the specification states it, fails: for the declared length 1 and a body of
  \<open>2 ^ 32 + 1\<close> octets, a number different from 1, \<^verbatim>\<open>do_plaintext\<close> returns 0 and
  reports nothing.
\<close>

theorem do_plaintext_wrapped_count_unreported:
  "length (replicate 4294967297 (0 :: byte)) \<noteq> unat (1 :: u32)
   \<and> \<not> isl (do_plaintext iobuf_temp 0xAC
        \<lparr>pt_len = 1, pt_buf = replicate 4294967297 0, pt_mode = 0x62, pt_timestamp = 0,
         pt_namelen = 0, pt_name = []\<rparr>)
   \<and> fst (projr (do_plaintext iobuf_temp 0xAC
        \<lparr>pt_len = 1, pt_buf = replicate 4294967297 0, pt_mode = 0x62, pt_timestamp = 0,
         pt_namelen = 0, pt_name = []\<rparr>)) = 0
   \<and> snd (snd (projr (do_plaintext iobuf_temp 0xAC
        \<lparr>pt_len = 1, pt_buf = replicate 4294967297 0, pt_mode = 0x62, pt_timestamp = 0,
         pt_namelen = 0, pt_name = []\<rparr>))) = []"
proof -
  have ok: "\<forall>i. \<not> sfail iobuf_temp i" by (simp add: iobuf_temp_def)
  have old: "(0xAC :: u32) AND 0x40 = 0" by simp
  from do_plaintext_never [OF ok old, of
        "\<lparr>pt_len = 1, pt_buf = replicate 4294967297 0, pt_mode = 0x62, pt_timestamp = 0,
         pt_namelen = 0, pt_name = []\<rparr>"]
  show ?thesis by auto
qed


subsection \<open>The length of a packet\<close>

lemma calc_header_length_range:
  "len \<noteq> 0 \<Longrightarrow> 2 \<le> calc_header_length len \<and> calc_header_length len \<le> 5"
  by (simp add: calc_header_length_def)

text \<open>
  C10, as the code has it.  For a literal data packet with a declared length
  \<open>L \<noteq> 0\<close>, a name of \<open>namelen \<ge> 0\<close> octets at hand and a body of exactly \<open>L\<close> octets, on
  a sink that accepts every byte and provided that \<open>6 + namelen + L\<close> and the 5 octets
  of the longest header still fit into 32 bits, \<^verbatim>\<open>build_packet\<close> returns 0, reports
  nothing, and appends to the sink as many octets as \<^verbatim>\<open>calc_packet_length\<close> returns:
  \<open>calc_header_length (6 + namelen + L) + 6 + namelen + L\<close>.
\<close>

theorem build_packet_plaintext_length:
  assumes ok: "\<forall>i. \<not> sfail out i"
    and ty: "pkttype p = PKT_PLAINTEXT" and pl: "pkt p = Plaintext pt"
    and len: "pt_len pt \<noteq> 0" and body: "length (pt_buf pt) = unat (pt_len pt)"
    and name0: "0 \<le> pt_namelen pt" and name: "pt_namelen pt \<le> int (length (pt_name pt))"
    and fits: "6 + nat (pt_namelen pt) + unat (pt_len pt) + 5 < 2 ^ 32"
  shows "\<exists>out' n.
           build_packet no_comment out p = Inr (0, out', [])
           \<and> calc_packet_length p = Inr n
           \<and> length (sdata out') = length (sdata out) + unat n
           \<and> int (unat n) =
               calc_header_length (of_nat (6 + nat (pt_namelen pt) + unat (pt_len pt)))
               + 6 + pt_namelen pt + int (unat (pt_len pt))"
proof -
  define S where "S = 6 + nat (pt_namelen pt) + unat (pt_len pt)"
  define H where "H = calc_header_length (of_nat S)"
  have S: "S + 5 < 4294967296" using fits by (simp add: S_def)
  have cp: "calc_plaintext pt = of_nat S"
    using len name0 by (simp add: calc_plaintext_def S_def)
  have uS: "unat (of_nat S :: u32) = S"
    using S by (simp add: unat_of_nat)
  have "S \<noteq> 0" by (simp add: S_def)
  with uS have nz: "(of_nat S :: u32) \<noteq> 0" by (metis unat_0)
  have Hr: "2 \<le> H" "H \<le> 5"
    using calc_header_length_range [OF nz] by (simp_all add: H_def)
  have e: "of_nat S + (of_int H :: u32) = of_nat (S + nat H)" using Hr by simp
  have b: "S + nat H < 4294967296" using S Hr by simp
  have un: "unat (of_nat S + of_int H :: u32) = S + nat H"
    by (simp only: e unat_of_nat) (simp add: b)
  have cpl: "calc_packet_length p = Inr (of_nat S + of_int H)"
    using ty pl by (simp add: calc_packet_length_def cp H_def Let_def)
  have old: "(0xAC :: u32) AND 0x40 = 0" and sel: "(0xAC :: u32) AND 3 = 0" by simp_all
  from do_plaintext_never [OF ok old name] sel obtain hdr out' where
    run: "do_plaintext out 0xAC pt =
           Inr (0, out',
                if pt_len pt \<noteq> 0 \<and> of_nat (length (pt_buf pt)) \<noteq> pt_len pt
                then [Length_mismatch (of_nat (length (pt_buf pt))) (pt_len pt)] else [])"
    and data: "sdata out' = sdata out @ hdr @ [ucast (pt_mode pt), of_int (pt_namelen pt)]
                           @ take (nat (pt_namelen pt)) (pt_name pt)
                           @ [ucast (drop_bit 24 (pt_timestamp pt)),
                              ucast (drop_bit 16 (pt_timestamp pt)),
                              ucast (drop_bit 8 (pt_timestamp pt)), ucast (pt_timestamp pt)]
                           @ pt_buf pt"
    and hl: "int (length hdr) = calc_header_length (calc_plaintext pt)"
    by blast
  have bp: "build_packet no_comment out p = Inr (0, out', [])"
    using run body by (simp add: build_packet_plaintext [OF ty pl])
  have "length hdr = nat H" using hl by (simp add: cp H_def)
  moreover have "length (take (nat (pt_namelen pt)) (pt_name pt)) = nat (pt_namelen pt)"
    using name by simp
  ultimately have total: "length (sdata out') = length (sdata out) + (S + nat H)"
    using body by (simp add: data S_def)
  have "int (S + nat H) = H + 6 + pt_namelen pt + int (unat (pt_len pt))"
    using Hr name0 by (simp add: S_def)
  with bp cpl total un show ?thesis
    by (intro exI conjI) (assumption | simp add: H_def S_def)+
qed

theorem build_packet_plaintext_length_witness:
  "(\<forall>i. \<not> sfail iobuf_temp i) \<and> (2 :: u32) \<noteq> 0 \<and> length [7, 8 :: byte] = unat (2 :: u32)
   \<and> (0 :: int) \<le> 1 \<and> (1 :: int) \<le> int (length [0x61 :: byte])
   \<and> 6 + nat 1 + unat (2 :: u32) + 5 < (2 :: nat) ^ 32
   \<and> (\<exists>out'. build_packet False iobuf_temp
         \<lparr>pkttype = PKT_PLAINTEXT,
          pkt = Plaintext \<lparr>pt_len = 2, pt_buf = [7, 8], pt_mode = 0x62, pt_timestamp = 0,
                           pt_namelen = 1, pt_name = [0x61]\<rparr>\<rparr> = Inr (0, out', [])
         \<and> length (sdata out') = 11)
   \<and> calc_packet_length
         \<lparr>pkttype = PKT_PLAINTEXT,
          pkt = Plaintext \<lparr>pt_len = 2, pt_buf = [7, 8], pt_mode = 0x62, pt_timestamp = 0,
                           pt_namelen = 1, pt_name = [0x61]\<rparr>\<rparr> = Inr 11"
proof -
  have ok: "\<forall>i. \<not> sfail iobuf_temp i" by (simp add: iobuf_temp_def)
  have e: "sdata iobuf_temp = []" by (simp add: iobuf_temp_def)
  have c: "calc_packet_length
         \<lparr>pkttype = PKT_PLAINTEXT,
          pkt = Plaintext \<lparr>pt_len = 2, pt_buf = [7, 8], pt_mode = 0x62, pt_timestamp = 0,
                           pt_namelen = 1, pt_name = [0x61]\<rparr>\<rparr> = Inr 11"
    by (simp add: calc_packet_length_def calc_plaintext_def calc_header_length_def)
  from build_packet_plaintext_length [OF ok, of
         "\<lparr>pkttype = PKT_PLAINTEXT,
          pkt = Plaintext \<lparr>pt_len = 2, pt_buf = [7, 8], pt_mode = 0x62, pt_timestamp = 0,
                           pt_namelen = 1, pt_name = [0x61]\<rparr>\<rparr>"
         "\<lparr>pt_len = 2, pt_buf = [7, 8], pt_mode = 0x62, pt_timestamp = 0,
                           pt_namelen = 1, pt_name = [0x61]\<rparr>" False]
  have "\<exists>out'. build_packet False iobuf_temp
         \<lparr>pkttype = PKT_PLAINTEXT,
          pkt = Plaintext \<lparr>pt_len = 2, pt_buf = [7, 8], pt_mode = 0x62, pt_timestamp = 0,
                           pt_namelen = 1, pt_name = [0x61]\<rparr>\<rparr> = Inr (0, out', [])
         \<and> length (sdata out') = 11"
    by (simp add: e c calc_header_length_def)
  with ok c show ?thesis by simp
qed

text \<open>
  C10, as the specification states it, fails where the 32-bit sum wraps: for the declared length
  \<open>2 ^ 32 - 6\<close>, no name and a body of exactly that many octets, \<^verbatim>\<open>calc_plaintext\<close> is 0
  and \<^verbatim>\<open>calc_packet_length\<close> returns 1, while \<^verbatim>\<open>build_packet\<close> returns 0 and has
  written \<open>2 ^ 32 + 1\<close> octets.
\<close>

theorem build_packet_plaintext_length_wraps:
  "length (replicate 4294967290 (0 :: byte)) = unat (4294967290 :: u32)
   \<and> calc_packet_length
         \<lparr>pkttype = PKT_PLAINTEXT,
          pkt = Plaintext \<lparr>pt_len = 4294967290, pt_buf = replicate 4294967290 0, pt_mode = 0x62,
                           pt_timestamp = 0, pt_namelen = 0, pt_name = []\<rparr>\<rparr> = Inr 1
   \<and> \<not> isl (build_packet False iobuf_temp
         \<lparr>pkttype = PKT_PLAINTEXT,
          pkt = Plaintext \<lparr>pt_len = 4294967290, pt_buf = replicate 4294967290 0, pt_mode = 0x62,
                           pt_timestamp = 0, pt_namelen = 0, pt_name = []\<rparr>\<rparr>)
   \<and> fst (projr (build_packet False iobuf_temp
         \<lparr>pkttype = PKT_PLAINTEXT,
          pkt = Plaintext \<lparr>pt_len = 4294967290, pt_buf = replicate 4294967290 0, pt_mode = 0x62,
                           pt_timestamp = 0, pt_namelen = 0, pt_name = []\<rparr>\<rparr>)) = 0
   \<and> length (sdata (fst (snd (projr (build_packet False iobuf_temp
         \<lparr>pkttype = PKT_PLAINTEXT,
          pkt = Plaintext \<lparr>pt_len = 4294967290, pt_buf = replicate 4294967290 0, pt_mode = 0x62,
                           pt_timestamp = 0, pt_namelen = 0, pt_name = []\<rparr>\<rparr>))))) = 4294967297"
proof -
  have ok: "\<forall>i. \<not> sfail iobuf_temp i" by (simp add: iobuf_temp_def)
  have e: "sdata iobuf_temp = []" by (simp add: iobuf_temp_def)
  have old: "(0xAC :: u32) AND 0x40 = 0" by simp
  have cp: "calc_plaintext \<lparr>pt_len = 4294967290, pt_buf = replicate 4294967290 0, pt_mode = 0x62,
                           pt_timestamp = 0, pt_namelen = 0, pt_name = []\<rparr> = 0"
    by (simp add: calc_plaintext_def)
  have c: "calc_packet_length
         \<lparr>pkttype = PKT_PLAINTEXT,
          pkt = Plaintext \<lparr>pt_len = 4294967290, pt_buf = replicate 4294967290 0, pt_mode = 0x62,
                           pt_timestamp = 0, pt_namelen = 0, pt_name = []\<rparr>\<rparr> = Inr 1"
    by (simp add: calc_packet_length_def cp calc_header_length_def)
  have bp: "build_packet False iobuf_temp
         \<lparr>pkttype = PKT_PLAINTEXT,
          pkt = Plaintext \<lparr>pt_len = 4294967290, pt_buf = replicate 4294967290 0, pt_mode = 0x62,
                           pt_timestamp = 0, pt_namelen = 0, pt_name = []\<rparr>\<rparr>
        = do_plaintext iobuf_temp 0xAC \<lparr>pt_len = 4294967290, pt_buf = replicate 4294967290 0,
             pt_mode = 0x62, pt_timestamp = 0, pt_namelen = 0, pt_name = []\<rparr>"
    by (rule build_packet_plaintext) simp_all
  from do_plaintext_never [OF ok old, of
        "\<lparr>pt_len = 4294967290, pt_buf = replicate 4294967290 0, pt_mode = 0x62,
          pt_timestamp = 0, pt_namelen = 0, pt_name = []\<rparr>"]
  show ?thesis
    unfolding bp by (auto simp: c cp e calc_header_length_def)
qed


end
